theory Spec2Isabelle
  imports Main "HOL-Library.Sublist" "HOL-Library.AList"
begin

text \<open>
  The client-side session management of the repository: the two token caches and
  \<open>getAuthToken\<close> (\<open>authTokenUtils\<close>), the axios instance with its request interceptor and
  its response interceptor, which refreshes the token on a response with status 498, and
  the \<open>PrivateRoute\<close> component. Asynchronous code is modelled by the tasks of the event
  loop: a function that awaits is cut at the \<open>await\<close> where other tasks can change what
  it reads afterwards, and the effects on the outside are kept in a trace.
\<close>

section \<open>Strings, cookies and percent-decoding\<close>

text \<open>
  JavaScript strings are modelled as \<open>string\<close>, read as UTF-8 bytes. The separators
  the code splits on (\<open>"; "\<close> and \<open>"="\<close>) and the escape character \<open>%\<close> are ASCII, so
  splitting and decoding on bytes agree with the same operations on code units.
  \<open>undefined\<close> and \<open>null\<close> are \<open>None\<close>.
\<close>

text \<open>\<open>if (x)\<close> on a \<open>string | null | undefined\<close>: the empty string is falsy too.\<close>

definition truthy :: "string option \<Rightarrow> bool" where
  "truthy v = (case v of None \<Rightarrow> False | Some s \<Rightarrow> s \<noteq> [])"

text \<open>
  \<open>s.split(sep)\<close> for a string separator: the pieces between the occurrences of
  \<open>sep\<close>, scanning from the left; an empty separator gives the single characters.
\<close>

function splitFrom :: "string \<Rightarrow> string \<Rightarrow> string \<Rightarrow> string list" where
  "splitFrom sep acc [] = [rev acc]"
| "splitFrom sep acc (c # cs) =
     (if sep \<noteq> [] \<and> prefix sep (c # cs)
      then rev acc # splitFrom sep [] (drop (length sep) (c # cs))
      else splitFrom sep (c # acc) cs)"
  by pat_completeness auto
termination
  by (relation "measure (\<lambda>(sep, acc, s). length s)") auto

definition split :: "string \<Rightarrow> string \<Rightarrow> string list" where
  "split s sep = (if sep = [] then map (\<lambda>c. [c]) s else splitFrom sep [] s)"

datatype uri_error = URIError

definition hexDigit :: "char \<Rightarrow> nat option" where
  "hexDigit c =
     (let n = (of_char c :: nat) in
      if 48 \<le> n \<and> n \<le> 57 then Some (n - 48)
      else if 65 \<le> n \<and> n \<le> 70 then Some (n - 55)
      else if 97 \<le> n \<and> n \<le> 102 then Some (n - 87)
      else None)"

text \<open>An escape \<open>%XX\<close> at the front of the string: its byte and the rest.\<close>

definition pctByte :: "string \<Rightarrow> (nat \<times> string) option" where
  "pctByte s =
     (case s of
        p # a # b # rest \<Rightarrow>
          (if p = CHR ''%'' then
             (case hexDigit a of
                None \<Rightarrow> None
              | Some h \<Rightarrow> (case hexDigit b of None \<Rightarrow> None | Some l \<Rightarrow> Some (16 * h + l, rest)))
           else None)
      | _ \<Rightarrow> None)"

text \<open>The \<open>n\<close> escaped continuation bytes (\<open>10xxxxxx\<close>) of a multi-byte sequence.\<close>

fun contBytes :: "nat \<Rightarrow> string \<Rightarrow> (nat list \<times> string) option" where
  "contBytes 0 s = Some ([], s)"
| "contBytes (Suc n) s =
     (case pctByte s of
        None \<Rightarrow> None
      | Some (b, rest) \<Rightarrow>
          (if 128 \<le> b \<and> b < 192 then
             (case contBytes n rest of
                None \<Rightarrow> None
              | Some (bs, r) \<Rightarrow> Some (b # bs, r))
           else None))"

text \<open>The number of leading 1 bits of a byte.\<close>

definition leadOnes :: "nat \<Rightarrow> nat" where
  "leadOnes b =
     (if b < 128 then 0 else if b < 192 then 1 else if b < 224 then 2
      else if b < 240 then 3 else if b < 248 then 4 else 5)"

text \<open>
  Whether a lead byte and its continuation bytes are the UTF-8 encoding of a code point:
  no overlong form, no surrogate, nothing above U+10FFFF.
\<close>

definition validUtf8 :: "nat \<Rightarrow> nat list \<Rightarrow> bool" where
  "validUtf8 b bs =
     (case bs of
        [c1] \<Rightarrow> 194 \<le> b \<and> b \<le> 223
      | [c1, c2] \<Rightarrow>
          (b = 224 \<and> 160 \<le> c1) \<or> (225 \<le> b \<and> b \<le> 236) \<or> (b = 237 \<and> c1 \<le> 159)
          \<or> (238 \<le> b \<and> b \<le> 239)
      | [c1, c2, c3] \<Rightarrow>
          (b = 240 \<and> 144 \<le> c1) \<or> (241 \<le> b \<and> b \<le> 243) \<or> (b = 244 \<and> c1 \<le> 143)
      | _ \<Rightarrow> False)"

text \<open>
  The built-in \<open>decodeURIComponent\<close>, after its definition in ECMAScript. Every \<open>%\<close>
  must start an escape \<open>%XX\<close>; an escaped byte below 128 is that character, a higher one
  must start a well-formed UTF-8 sequence whose other bytes are escaped as well; anything
  else throws \<open>URIError\<close>. All other characters are kept.
\<close>

function decodeLoop :: "string \<Rightarrow> uri_error + string" where
  "decodeLoop [] = Inr []"
| "decodeLoop (c # cs) =
     (if c \<noteq> CHR ''%'' then
        (case decodeLoop cs of Inl e \<Rightarrow> Inl e | Inr out \<Rightarrow> Inr (c # out))
      else
        (case pctByte (c # cs) of
           None \<Rightarrow> Inl URIError
         | Some (b, rest) \<Rightarrow>
             (if b < 128 then
                (case decodeLoop rest of Inl e \<Rightarrow> Inl e | Inr out \<Rightarrow> Inr (char_of b # out))
              else if leadOnes b = 1 \<or> 4 < leadOnes b then Inl URIError
              else
                (case contBytes (leadOnes b - 1) rest of
                   None \<Rightarrow> Inl URIError
                 | Some (bs, rest') \<Rightarrow>
                     (if validUtf8 b bs then
                        (case decodeLoop rest' of
                           Inl e \<Rightarrow> Inl e
                         | Inr out \<Rightarrow> Inr (map char_of (b # bs) @ out))
                      else Inl URIError)))))"
  by pat_completeness auto
termination
proof -
  have p: "length rest < length s" if "pctByte s = Some (b, rest)" for s b rest
    using that by (auto simp: pctByte_def split: list.splits if_splits option.splits)
  have c: "length r \<le> length s" if "contBytes n s = Some (bs, r)" for n s bs r
    using that
  proof (induction n arbitrary: s bs r)
    case 0
    then show ?case by simp
  next
    case (Suc n)
    then show ?case
      by (fastforce split: option.splits if_splits dest: p)
  qed
  show ?thesis
  proof (relation "measure length")
  qed (auto dest!: p c)
qed

text \<open>
  \<open>getCookieByName\<close> (the same text in both modules): the loop over
  \<open>document.cookie.split("; ")\<close>. \<open>const [key, value] = cookie.split("=")\<close> takes the first
  two pieces, \<open>value\<close> being \<open>undefined\<close> when there is no \<open>=\<close>; \<open>decodeURIComponent\<close>
  turns its argument into a string first, \<open>undefined\<close> into \<open>"undefined"\<close>.
\<close>

definition decodeURIComponent :: "string option \<Rightarrow> uri_error + string" where
  "decodeURIComponent v = decodeLoop (case v of None \<Rightarrow> ''undefined'' | Some s \<Rightarrow> s)"

fun findCookie :: "string \<Rightarrow> string list \<Rightarrow> uri_error + string option" where
  "findCookie name [] = Inr None"
| "findCookie name (cookie # cookies) =
     (case split cookie ''='' of
        [] \<Rightarrow> findCookie name cookies
      | key # rest \<Rightarrow>
          (if key = name then
             (case decodeURIComponent (case rest of [] \<Rightarrow> None | v # _ \<Rightarrow> Some v) of
                Inl e \<Rightarrow> Inl e
              | Inr s \<Rightarrow> Inr (Some s))
           else findCookie name cookies))"

definition getCookieByName :: "string \<Rightarrow> string \<Rightarrow> uri_error + string option" where
  "getCookieByName documentCookie name = findCookie name (split documentCookie ''; '')"

section \<open>The state of the execution context\<close>

text \<open>
  The request configuration with the \<open>_retry\<close> marker of
  \<open>ExtendedAxiosRequestConfig\<close> (\<open>undefined\<close> is \<open>False\<close>); \<open>rid\<close> is the identity of the
  request, and of the promise its caller holds. An error as the response interceptor
  sees it: \<open>axios.isAxiosError\<close> reads the flag, \<open>status\<close> is \<open>error.response?.status\<close>.
\<close>

record request =
  rid :: nat
  url :: string
  headers :: "(string \<times> string) list"
  retry :: bool

record axios_error =
  isAxiosError :: bool
  status :: "nat option"
  config :: request

datatype module = AxiosInstance | AuthTokenUtils

text \<open>
  What one \<open>fetch\<close> of the token endpoint gives: a network failure, or a response with
  its \<open>ok\<close> flag and its body. A body that is not JSON makes \<open>response.json()\<close> throw,
  the JSON \<open>null\<close> makes \<open>data.token\<close> throw; of any other body only the \<open>token\<close>
  field is read, absent when \<open>None\<close>.
\<close>

datatype json = NotJson | JsonNull | JsonObject "string option"

datatype fetch_result = NetworkError | HttpResponse bool json

text \<open>
  A call of \<open>getAuthToken\<close> that is suspended at one of its \<open>await\<close>s, with its local
  variables: at \<open>await getCsrfToken()\<close> with \<open>retryDelay\<close> and what \<open>getCsrfToken\<close> gave
  or threw; at \<open>await fetch\<close> with \<open>retryDelay\<close>, \<open>csrfToken\<close> and \<open>attempt\<close>; at
  \<open>await response.json()\<close> with the body of the response as well; at the \<open>await\<close> of the
  \<open>setTimeout\<close> promise, \<open>attempt\<close> already incremented.
\<close>

datatype fetching =
    AtCsrf int "uri_error + string option"
  | AtFetch int "string option" nat
  | AtJson int "string option" nat json
  | AtSleep int "string option" nat

text \<open>
  What is thrown inside the \<open>try\<close> of \<open>getAuthToken\<close>: the rejection of \<open>fetch\<close>, the
  \<open>Error('Failed to fetch token')\<close> of the code, the rejection of \<open>response.json()\<close>, and
  the \<open>TypeError\<close> of \<open>data.token\<close> on \<open>null\<close>.
\<close>

datatype thrown = FetchRejected | FailedToFetchToken | JsonRejected | TokenOfNull

text \<open>
  What the code does to the outside, in the order it does it: the read of
  \<open>document.cookie\<close> by the \<open>getCookieByName\<close> of a module; \<open>console.log\<close> and
  \<open>console.error\<close>, \<open>LogAttempt n x\<close> being the \<open>console.error\<close> of the \<open>n\<close>-th failed
  attempt with what was thrown; the \<open>fetch\<close> of the token endpoint with its headers; the
  wait of \<open>setTimeout\<close>; the \<open>POST\<close> to the refresh endpoint; \<open>resolve\<close> and \<open>reject\<close> of
  the promise of a queued request; the replay \<open>axiosInstance(originalRequest)\<close>; and the
  assignment to \<open>window.location.href\<close>.
\<close>

datatype effect =
    ReadCookie module
  | Log string
  | LogError string
  | LogAttempt nat thrown
  | Fetch "(string \<times> string) list"
  | Sleep int
  | RefreshCall
  | Resolve nat string
  | Reject nat axios_error
  | Replay request
  | Redirect string

text \<open>
  The module-level variables of the two modules, the default \<open>Authorization\<close> header of
  the axios instance, the handlers suspended at \<open>await axios.post\<close> (each with its
  \<open>error\<close>), the calls of \<open>getAuthToken\<close> suspended at an \<open>await\<close>, and the trace of
  effects.
\<close>

record world =
  axios_csrfTokenCache :: "string option"
  utils_csrfTokenCache :: "string option"
  authTokenCache :: "string option"
  isRefreshing :: bool
  failedQueue :: "nat list"
  defaultAuthorization :: "string option"
  suspended :: "axios_error list"
  fetching :: "fetching list"
  trace :: "effect list"

definition init :: world where
  "init = \<lparr>axios_csrfTokenCache = None, utils_csrfTokenCache = None, authTokenCache = None,
           isRefreshing = False, failedQueue = [], defaultAuthorization = None,
           suspended = [], fetching = [], trace = []\<rparr>"

definition emit :: "effect \<Rightarrow> world \<Rightarrow> world" where
  "emit x w = w\<lparr>trace := trace w @ [x]\<rparr>"

section \<open>CredentialStore: the two \<open>getCsrfToken\<close>\<close>

definition utils_getCsrfToken :: "string \<Rightarrow> world \<Rightarrow> world \<times> (uri_error + string option)" where
  "utils_getCsrfToken documentCookie w =
     (if truthy (utils_csrfTokenCache w) then
        (emit (Log ''Returning cached CSRF token:'') w, Inr (utils_csrfTokenCache w))
      else
        (let w1 = emit (ReadCookie AuthTokenUtils) w in
         case getCookieByName documentCookie ''XSRF-TOKEN'' of
           Inl e \<Rightarrow> (w1, Inl e)
         | Inr csrfToken \<Rightarrow>
             (if truthy csrfToken then
                (emit (Log ''Extracted CSRF token from cookies:'')
                   (w1\<lparr>utils_csrfTokenCache := csrfToken\<rparr>), Inr csrfToken)
              else (emit (LogError ''CSRF token not found in cookies'') w1, Inr None))))"

definition axios_getCsrfToken :: "string \<Rightarrow> world \<Rightarrow> world \<times> (uri_error + string option)" where
  "axios_getCsrfToken documentCookie w =
     (if truthy (axios_csrfTokenCache w) then
        (emit (Log ''Returning cached CSRF token:'') w, Inr (axios_csrfTokenCache w))
      else
        (let w1 = emit (ReadCookie AxiosInstance) w in
         case getCookieByName documentCookie ''XSRF-TOKEN'' of
           Inl e \<Rightarrow> (w1, Inl e)
         | Inr csrfToken \<Rightarrow>
             (if truthy csrfToken then
                (emit (Log ''Extracted CSRF token from cookies:'')
                   (w1\<lparr>axios_csrfTokenCache := csrfToken\<rparr>), Inr csrfToken)
              else (emit (LogError ''CSRF token not found in cookies'') w1, Inr None))))"

text \<open>The \<open>getCsrfToken\<close> of a module, and the cache it uses.\<close>

definition csrfTokenCache :: "module \<Rightarrow> world \<Rightarrow> string option" where
  "csrfTokenCache m w =
     (case m of AxiosInstance \<Rightarrow> axios_csrfTokenCache w | AuthTokenUtils \<Rightarrow> utils_csrfTokenCache w)"

definition getCsrfToken :: "module \<Rightarrow> string \<Rightarrow> world \<Rightarrow> world \<times> (uri_error + string option)" where
  "getCsrfToken m documentCookie w =
     (case m of
        AxiosInstance \<Rightarrow> axios_getCsrfToken documentCookie w
      | AuthTokenUtils \<Rightarrow> utils_getCsrfToken documentCookie w)"

section \<open>TokenFetcher: \<open>getAuthToken\<close>\<close>

text \<open>The body of the \<open>try\<close> from the \<open>fetch\<close> on: \<open>Inl\<close> is what was thrown.\<close>

definition tryFetch :: "fetch_result \<Rightarrow> thrown + string option" where
  "tryFetch r =
     (case r of
        NetworkError \<Rightarrow> Inl FetchRejected
      | HttpResponse ok body \<Rightarrow>
          (if \<not> ok then Inl FailedToFetchToken
           else (case body of
                   NotJson \<Rightarrow> Inl JsonRejected
                 | JsonNull \<Rightarrow> Inl TokenOfNull
                 | JsonObject token \<Rightarrow> Inr token)))"

definition maxRetries :: nat where
  "maxRetries = 2"

definition csrfHeaders :: "string option \<Rightarrow> (string \<times> string) list" where
  "csrfHeaders csrfToken =
     (case csrfToken of
        None \<Rightarrow> []
      | Some t \<Rightarrow> if t \<noteq> [] then [(''X-CSRF-Token'', t)] else [])"

text \<open>
  The \<open>while (attempt < maxRetries)\<close> loop; \<open>net k\<close> is what the \<open>k\<close>-th \<open>fetch\<close> of this
  call gives (counted from 0).
\<close>

function fetchLoop ::
  "(nat \<Rightarrow> fetch_result) \<Rightarrow> int \<Rightarrow> string option \<Rightarrow> nat \<Rightarrow> world \<Rightarrow> world \<times> string option" where
  "fetchLoop net retryDelay csrfToken attempt w =
     (if attempt < maxRetries then
        (let w1 = emit (Fetch (csrfHeaders csrfToken)) w in
         case tryFetch (net attempt) of
           Inr token \<Rightarrow> (w1\<lparr>authTokenCache := token\<rparr>, token)
         | Inl x \<Rightarrow>
             (let w2 = emit (LogAttempt (Suc attempt) x) w1;
                  w3 = (if Suc attempt < maxRetries
                        then emit (Sleep retryDelay) (emit (Log ''Retrying'') w2)
                        else w2)
              in fetchLoop net retryDelay csrfToken (Suc attempt) w3))
      else (emit (LogError ''Max retries reached. Could not fetch token.'') w, None))"
  by pat_completeness auto
termination
  by (relation "measure (\<lambda>(net, retryDelay, csrfToken, attempt, w). maxRetries - attempt)") auto

declare fetchLoop.simps [simp del]

text \<open>
  A call of \<open>getAuthToken\<close> from its first line to its return or throw, when no other
  task runs while it awaits.
\<close>

definition getAuthToken ::
  "int \<Rightarrow> string \<Rightarrow> (nat \<Rightarrow> fetch_result) \<Rightarrow> world \<Rightarrow> world \<times> (uri_error + string option)" where
  "getAuthToken retryDelay documentCookie net w =
     (if truthy (authTokenCache w) then (w, Inr (authTokenCache w))
      else
        (case utils_getCsrfToken documentCookie w of
           (w1, Inl e) \<Rightarrow> (w1, Inl e)
         | (w1, Inr csrfToken) \<Rightarrow>
             (case fetchLoop net retryDelay csrfToken 0 w1 of (w2, token) \<Rightarrow> (w2, Inr token))))"

subsection \<open>\<open>getAuthToken\<close>, from \<open>await\<close> to \<open>await\<close>\<close>

text \<open>
  The same function cut at its \<open>await\<close>s, where other tasks run: what one stretch of
  it does to the state, and whether the call has returned or thrown (\<open>Done\<close>) or is
  suspended again.
\<close>

datatype call_status = Done "uri_error + string option" | Pending fetching

text \<open>The call up to \<open>await getCsrfToken()\<close>, or to the \<open>return\<close> of the cached token.\<close>

definition callGetAuthToken :: "int \<Rightarrow> string \<Rightarrow> world \<Rightarrow> world \<times> call_status" where
  "callGetAuthToken retryDelay documentCookie w =
     (if truthy (authTokenCache w) then (w, Done (Inr (authTokenCache w)))
      else
        (case utils_getCsrfToken documentCookie w of
           (w1, r) \<Rightarrow> (w1, Pending (AtCsrf retryDelay r))))"

text \<open>The test of the \<open>while\<close> and the \<open>try\<close> up to \<open>await fetch\<close>, or the lines after the loop.\<close>

definition loopHead :: "int \<Rightarrow> string option \<Rightarrow> nat \<Rightarrow> world \<Rightarrow> world \<times> call_status" where
  "loopHead retryDelay csrfToken attempt w =
     (if attempt < maxRetries then
        (emit (Fetch (csrfHeaders csrfToken)) w, Pending (AtFetch retryDelay csrfToken attempt))
      else (emit (LogError ''Max retries reached. Could not fetch token.'') w, Done (Inr None)))"

text \<open>The \<open>catch\<close> up to the \<open>await\<close> of the delay, or on to the next test of the \<open>while\<close>.\<close>

definition catchAttempt ::
  "int \<Rightarrow> string option \<Rightarrow> nat \<Rightarrow> thrown \<Rightarrow> world \<Rightarrow> world \<times> call_status" where
  "catchAttempt retryDelay csrfToken attempt x w =
     (let w2 = emit (LogAttempt (Suc attempt) x) w in
      if Suc attempt < maxRetries then
        (emit (Sleep retryDelay) (emit (Log ''Retrying'') w2),
         Pending (AtSleep retryDelay csrfToken (Suc attempt)))
      else loopHead retryDelay csrfToken (Suc attempt) w2)"

text \<open>
  What wakes a suspended call: the promise of \<open>getCsrfToken\<close>, the \<open>fetch\<close> with what it
  gives, \<open>response.json()\<close>, or the timer. A call is woken by what it awaits only.
\<close>

datatype wake = CsrfAwaited | FetchSettled fetch_result | JsonSettled | TimerFired

fun resume :: "wake \<Rightarrow> fetching \<Rightarrow> world \<Rightarrow> world \<times> call_status" where
  "resume CsrfAwaited (AtCsrf retryDelay r) w =
     (case r of
        Inl e \<Rightarrow> (w, Done (Inl e))
      | Inr csrfToken \<Rightarrow> loopHead retryDelay csrfToken 0 w)"
| "resume (FetchSettled r) (AtFetch retryDelay csrfToken attempt) w =
     (case r of
        NetworkError \<Rightarrow> catchAttempt retryDelay csrfToken attempt FetchRejected w
      | HttpResponse ok body \<Rightarrow>
          (if \<not> ok then catchAttempt retryDelay csrfToken attempt FailedToFetchToken w
           else (w, Pending (AtJson retryDelay csrfToken attempt body))))"
| "resume JsonSettled (AtJson retryDelay csrfToken attempt body) w =
     (case body of
        NotJson \<Rightarrow> catchAttempt retryDelay csrfToken attempt JsonRejected w
      | JsonNull \<Rightarrow> catchAttempt retryDelay csrfToken attempt TokenOfNull w
      | JsonObject token \<Rightarrow> (w\<lparr>authTokenCache := token\<rparr>, Done (Inr token)))"
| "resume TimerFired (AtSleep retryDelay csrfToken attempt) w =
     loopHead retryDelay csrfToken attempt w"
| "resume _ f w = (w, Pending f)"

text \<open>
  A call run alone: each time it is suspended, what it awaits settles before any other
  task runs, the \<open>k\<close>-th \<open>fetch\<close> giving \<open>net k\<close>.
\<close>

fun wakeFor :: "(nat \<Rightarrow> fetch_result) \<Rightarrow> fetching \<Rightarrow> wake" where
  "wakeFor net (AtCsrf retryDelay r) = CsrfAwaited"
| "wakeFor net (AtFetch retryDelay csrfToken attempt) = FetchSettled (net attempt)"
| "wakeFor net (AtJson retryDelay csrfToken attempt body) = JsonSettled"
| "wakeFor net (AtSleep retryDelay csrfToken attempt) = TimerFired"

fun runCall :: "nat \<Rightarrow> (nat \<Rightarrow> fetch_result) \<Rightarrow> world \<times> call_status \<Rightarrow> world \<times> call_status" where
  "runCall 0 net x = x"
| "runCall (Suc n) net (w, Done r) = (w, Done r)"
| "runCall (Suc n) net (w, Pending f) = runCall n net (resume (wakeFor net f) f w)"

section \<open>RequestInterceptor\<close>

definition setHeader :: "string \<Rightarrow> string \<Rightarrow> request \<Rightarrow> request" where
  "setHeader name v r = r\<lparr>headers := AList.update name v (headers r)\<rparr>"

definition bearer :: "string \<Rightarrow> string" where
  "bearer token = ''Bearer '' @ token"

text \<open>
  The request interceptor, with \<open>getAuthToken()\<close> at its default delay of 1000 ms, when
  no other task runs while it awaits. What is thrown while the tokens are read is logged
  and rejects the request.
\<close>

definition requestInterceptor ::
  "string \<Rightarrow> (nat \<Rightarrow> fetch_result) \<Rightarrow> world \<Rightarrow> request \<Rightarrow> world \<times> (uri_error + request)" where
  "requestInterceptor documentCookie net w cfg =
     (case axios_getCsrfToken documentCookie w of
        (w1, Inl e) \<Rightarrow> (emit (LogError ''Error in request interceptor:'') w1, Inl e)
      | (w1, Inr csrfToken) \<Rightarrow>
          (case getAuthToken 1000 documentCookie net w1 of
             (w2, Inl e) \<Rightarrow> (emit (LogError ''Error in request interceptor:'') w2, Inl e)
           | (w2, Inr authToken) \<Rightarrow>
               (let c1 = (case csrfToken of
                            None \<Rightarrow> cfg
                          | Some t \<Rightarrow> if t \<noteq> [] then setHeader ''X-CSRF-Token'' t cfg else cfg);
                    c2 = (case authToken of
                            None \<Rightarrow> c1
                          | Some t \<Rightarrow> if t \<noteq> [] then setHeader ''Authorization'' (bearer t) c1 else c1)
                in (w2, Inr c2))))"

section \<open>ResponseInterceptor: the refresh coordinator\<close>

text \<open>
  What the \<open>POST\<close> to the refresh endpoint gives: a rejection, or a response whose
  \<open>data\<close> is \<open>null\<close> or \<open>undefined\<close> (\<open>const { token } = response.data\<close> throws, inside
  the \<open>try\<close>) or anything else, of which only the \<open>token\<close> field is read.
\<close>

datatype response_data = NullData | Data "string option"

datatype refresh_outcome = PostRejected | PostResolved response_data

text \<open>
  What the error handler gives its caller: the pending promise of a queued request, the
  handler itself suspended at the \<open>await\<close>, a rejection with the error, or the promise of
  the replayed request.
\<close>

datatype handler_result = Queued | Awaiting | Rejected axios_error | Replayed request

definition settle :: "axios_error option \<Rightarrow> string option \<Rightarrow> nat \<Rightarrow> effect list" where
  "settle error token prom =
     (case token of
        Some t \<Rightarrow>
          (if t \<noteq> [] then [Resolve prom t]
           else (case error of None \<Rightarrow> [] | Some e \<Rightarrow> [Reject prom e]))
      | None \<Rightarrow> (case error of None \<Rightarrow> [] | Some e \<Rightarrow> [Reject prom e]))"

definition processQueue :: "axios_error option \<Rightarrow> string option \<Rightarrow> world \<Rightarrow> world" where
  "processQueue error token w =
     w\<lparr>trace := trace w @ concat (map (settle error token) (failedQueue w)),
       failedQueue := []\<rparr>"

definition refreshable :: "axios_error \<Rightarrow> bool" where
  "refreshable error =
     (isAxiosError error \<and> status error = Some 498 \<and> \<not> retry (config error))"

text \<open>The error handler up to \<open>await axios.post\<close>.\<close>

definition onRejected :: "axios_error \<Rightarrow> world \<Rightarrow> world \<times> handler_result" where
  "onRejected error w =
     (if refreshable error then
        (if isRefreshing w then
           (w\<lparr>failedQueue := failedQueue w @ [rid (config error)]\<rparr>, Queued)
         else
           (emit RefreshCall
              (w\<lparr>isRefreshing := True,
                 suspended := suspended w @ [error\<lparr>config := (config error)\<lparr>retry := True\<rparr>\<rparr>]\<rparr>),
            Awaiting))
      else (w, Rejected error))"

text \<open>
  The handler from the \<open>await\<close> on, \<open>error\<close> being its error with \<open>_retry\<close> set: the
  rest of the \<open>try\<close>, the \<open>catch\<close>, the \<open>finally\<close> and the last \<open>Promise.reject\<close>.
\<close>

definition catchBlock :: "axios_error \<Rightarrow> world \<Rightarrow> world \<times> handler_result" where
  "catchBlock error w =
     (let w1 = processQueue (Some error) None w;
          w2 = emit (LogError ''Token refresh failed:'') w1;
          w3 = emit (Redirect ''/login'') w2
      in (w3\<lparr>isRefreshing := False\<rparr>, Rejected error))"

definition afterRefresh :: "axios_error \<Rightarrow> refresh_outcome \<Rightarrow> world \<Rightarrow> world \<times> handler_result" where
  "afterRefresh error outcome w =
     (case outcome of
        PostRejected \<Rightarrow> catchBlock error w
      | PostResolved NullData \<Rightarrow> catchBlock error w
      | PostResolved (Data token) \<Rightarrow>
          (case token of
             None \<Rightarrow> (w\<lparr>isRefreshing := False\<rparr>, Rejected error)
           | Some t \<Rightarrow>
               (if t \<noteq> [] then
                  (let w1 = w\<lparr>defaultAuthorization := Some (bearer t)\<rparr>;
                       originalRequest = setHeader ''Authorization'' (bearer t) (config error);
                       w2 = processQueue None (Some t) w1;
                       w3 = emit (Replay originalRequest) w2
                   in (w3\<lparr>isRefreshing := False\<rparr>, Replayed originalRequest))
                else (w\<lparr>isRefreshing := False\<rparr>, Rejected error))))"

section \<open>The event loop\<close>

text \<open>
  The tasks of the single-threaded event loop that touch the state, one at a time, in
  any order:
  \<^item> an error reaches the response interceptor, which runs up to its \<open>await\<close>;
  \<^item> the refresh call of the \<open>k\<close>-th suspended handler settles and the handler runs to
    its end;
  \<^item> one of the two \<open>getCsrfToken\<close> is called (it awaits nothing);
  \<^item> \<open>getAuthToken\<close> is called and runs to its first \<open>await\<close> or to its \<open>return\<close>;
  \<^item> the \<open>k\<close>-th suspended call of \<open>getAuthToken\<close> is woken and runs to its next
    \<open>await\<close>, or to its end;
  \<^item> the \<open>catch\<close> of the request interceptor logs.
  An event for a handler or call that is not there, or that awaits something else, does
  nothing. A request that passes the request interceptor is the call of \<open>getCsrfToken\<close>
  of the axios module, then the call of \<open>getAuthToken\<close> with the events that wake it, and
  then either the headers set on the request, which touches no state, or the \<open>catch\<close>.
\<close>

datatype event =
    ResponseError axios_error
  | RefreshSettled nat refresh_outcome
  | CallGetCsrfToken module string
  | CallGetAuthToken int string
  | TokenCall nat wake
  | InterceptorCatch

fun step :: "event \<Rightarrow> world \<Rightarrow> world" where
  "step (ResponseError error) w = fst (onRejected error w)"
| "step (RefreshSettled k outcome) w =
     (if k < length (suspended w) then
        fst (afterRefresh (suspended w ! k) outcome
               (w\<lparr>suspended := take k (suspended w) @ drop (Suc k) (suspended w)\<rparr>))
      else w)"
| "step (CallGetCsrfToken m documentCookie) w = fst (getCsrfToken m documentCookie w)"
| "step (CallGetAuthToken retryDelay documentCookie) w =
     (case callGetAuthToken retryDelay documentCookie w of
        (w1, Done r) \<Rightarrow> w1
      | (w1, Pending f) \<Rightarrow> w1\<lparr>fetching := fetching w1 @ [f]\<rparr>)"
| "step (TokenCall k x) w =
     (if k < length (fetching w) then
        (case resume x (fetching w ! k) w of
           (w1, Done r) \<Rightarrow> w1\<lparr>fetching := take k (fetching w1) @ drop (Suc k) (fetching w1)\<rparr>
         | (w1, Pending f) \<Rightarrow> w1\<lparr>fetching := (fetching w1)[k := f]\<rparr>)
      else w)"
| "step InterceptorCatch w = emit (LogError ''Error in request interceptor:'') w"

definition run :: "event list \<Rightarrow> world \<Rightarrow> world" where
  "run events w = fold step events w"

text \<open>The events in which \<open>getAuthToken\<close> runs: its call, and what wakes a call.\<close>

fun callsGetAuthToken :: "event \<Rightarrow> bool" where
  "callsGetAuthToken (CallGetAuthToken retryDelay documentCookie) = True"
| "callsGetAuthToken (TokenCall k x) = True"
| "callsGetAuthToken _ = False"

text \<open>The events in which a refresh call settles, and the errors a list of events delivers.\<close>

fun refreshSettles :: "event \<Rightarrow> bool" where
  "refreshSettles (RefreshSettled k outcome) = True"
| "refreshSettles _ = False"

fun responseErrors :: "event list \<Rightarrow> axios_error list" where
  "responseErrors [] = []"
| "responseErrors (ResponseError error # events) = error # responseErrors events"
| "responseErrors (ev # events) = responseErrors events"

text \<open>
  The events that call \<open>processQueue\<close>: a refresh call that settles with a rejection,
  with the data \<open>null\<close>, or with a truthy token.
\<close>

fun drains :: "event \<Rightarrow> bool" where
  "drains (RefreshSettled k PostRejected) = True"
| "drains (RefreshSettled k (PostResolved NullData)) = True"
| "drains (RefreshSettled k (PostResolved (Data token))) = truthy token"
| "drains _ = False"

text \<open>The promises of queued requests that a trace settles, in its order.\<close>

fun settled :: "effect list \<Rightarrow> nat list" where
  "settled [] = []"
| "settled (Resolve prom token # xs) = prom # settled xs"
| "settled (Reject prom error # xs) = prom # settled xs"
| "settled (x # xs) = settled xs"

text \<open>
  For the proofs: \<open>w'\<close> comes from \<open>w\<close> by a step of the credential store. The refresh
  state and the default header are as before, the trace has grown by effects that settle
  no promise and call no refresh, and a CSRF cache that held a token still holds it,
  with no further read of the cookie for it.
\<close>

definition credentialStep :: "world \<Rightarrow> world \<Rightarrow> bool" where
  "credentialStep w w' =
     (isRefreshing w' = isRefreshing w \<and> failedQueue w' = failedQueue w \<and>
      suspended w' = suspended w \<and> defaultAuthorization w' = defaultAuthorization w \<and>
      (\<exists>xs. trace w' = trace w @ xs \<and> settled xs = [] \<and> count_list xs RefreshCall = 0 \<and>
         (\<forall>m. truthy (csrfTokenCache m w) \<longrightarrow>
            csrfTokenCache m w' = csrfTokenCache m w \<and> count_list xs (ReadCookie m) = 0)))"

text \<open>
  Requests and errors to run the model on: the request \<open>n\<close>, sent with the token
  \<open>T1\<close>, and the error of a response with status 498 to a request.
\<close>

definition req :: "nat \<Rightarrow> request" where
  "req n = \<lparr>rid = n, url = ''/api'', headers = [(''Authorization'', ''Bearer T1'')],
            retry = False\<rparr>"

definition expired :: "request \<Rightarrow> axios_error" where
  "expired r = \<lparr>isAxiosError = True, status = Some 498, config = r\<rparr>"

section \<open>SessionGuard: \<open>PrivateRoute\<close>\<close>

text \<open>
  What the component renders, where its \<open>useEffect\<close> stands, and what it does to the
  outside: the two \<open>axiosInstance.get\<close> calls with the headers given to them, and
  \<open>navigate\<close>.
\<close>

datatype view = Loading | Children | Nothing

datatype phase = Inactive | AwaitToken | AwaitCheck | Finished

datatype action = Get string "(string \<times> string) list" | Navigate string | GuardError string

record guard =
  isAuthenticated :: "bool option"
  isMounted :: bool
  phase :: phase
  actions :: "action list"

text \<open>
  How a \<open>get\<close> settles: a response with its status and data, or a rejection, with
  whether what it rejects with is an axios error.
\<close>

datatype get_result = Fulfilled nat response_data | Failed bool

datatype guard_event = Activate | TokenSettled get_result | CheckSettled bool | Deactivate

definition initGuard :: guard where
  "initGuard = \<lparr>isAuthenticated = None, isMounted = False, phase = Inactive, actions = []\<rparr>"

definition render :: "guard \<Rightarrow> view" where
  "render g =
     (case isAuthenticated g of
        None \<Rightarrow> Loading
      | Some b \<Rightarrow> if b then Children else Nothing)"

text \<open>\<open>fetchToken\<close> after its \<open>get\<close> has settled: the token, and what it logged.\<close>

definition fetchToken :: "get_result \<Rightarrow> string option \<times> action list" where
  "fetchToken r =
     (case r of
        Failed axiosError \<Rightarrow>
          (None, [GuardError (if axiosError then ''Error fetching token:'' else ''Unexpected error:'')])
      | Fulfilled st d \<Rightarrow>
          (if st = 200 then
             (case d of
                NullData \<Rightarrow> (None, [GuardError ''Unexpected error:''])
              | Data token \<Rightarrow> (token, []))
           else (None, [GuardError ''Unexpected error:''])))"

definition setIsAuthenticated :: "bool \<Rightarrow> guard \<Rightarrow> guard" where
  "setIsAuthenticated b g = g\<lparr>isAuthenticated := Some b\<rparr>"

definition act :: "action list \<Rightarrow> guard \<Rightarrow> guard" where
  "act xs g = g\<lparr>actions := actions g @ xs\<rparr>"

fun guardStep :: "guard_event \<Rightarrow> guard \<Rightarrow> guard" where
  "guardStep Activate g =
     (if phase g = Inactive then
        act [Get ''/auth/get-token'' []] (g\<lparr>isMounted := True, phase := AwaitToken\<rparr>)
      else g)"
| "guardStep (TokenSettled r) g =
     (if phase g = AwaitToken then
        (case fetchToken r of
           (authToken, logged) \<Rightarrow>
             (case (if truthy authToken then authToken else None) of
                None \<Rightarrow>
                  (let g1 = act (logged @ [GuardError ''Access denied: Token not found'']) g;
                       g2 = (if isMounted g1 then setIsAuthenticated False g1 else g1)
                   in (act [Navigate ''/login''] g2)\<lparr>phase := Finished\<rparr>)
              | Some t \<Rightarrow>
                  (act (logged @ [Get ''/account/check-auth'' [(''Authorization'', bearer t)]]) g)
                    \<lparr>phase := AwaitCheck\<rparr>))
      else g)"
| "guardStep (CheckSettled ok) g =
     (if phase g = AwaitCheck then
        (if ok then
           (if isMounted g then setIsAuthenticated True g else g)\<lparr>phase := Finished\<rparr>
         else
           (let g1 = act [GuardError ''Access denied: You are not logged in''] g;
                g2 = (if isMounted g1
                      then act [Navigate ''/login''] (setIsAuthenticated False g1)
                      else g1)
            in g2\<lparr>phase := Finished\<rparr>))
      else g)"
| "guardStep Deactivate g = g\<lparr>isMounted := False\<rparr>"

definition guardRun :: "guard_event list \<Rightarrow> guard \<Rightarrow> guard" where
  "guardRun events g = fold guardStep events g"

section \<open>Facts about the token fetcher\<close>

lemma fetchLoop_done: "maxRetries \<le> attempt \<Longrightarrow>
  fetchLoop net d c attempt w =
    (emit (LogError ''Max retries reached. Could not fetch token.'') w, None)"
  by (subst fetchLoop.simps) simp

lemma fetchLoop_fail: "attempt < maxRetries \<Longrightarrow> tryFetch (net attempt) = Inl m \<Longrightarrow>
  fetchLoop net d c attempt w =
    fetchLoop net d c (Suc attempt)
      (if Suc attempt < maxRetries
       then emit (Sleep d) (emit (Log ''Retrying'')
              (emit (LogAttempt (Suc attempt) m) (emit (Fetch (csrfHeaders c)) w)))
       else emit (LogAttempt (Suc attempt) m) (emit (Fetch (csrfHeaders c)) w))"
  by (subst fetchLoop.simps) (simp add: Let_def)

lemma fetchLoop_ok: "attempt < maxRetries \<Longrightarrow> tryFetch (net attempt) = Inr t \<Longrightarrow>
  fetchLoop net d c attempt w = ((emit (Fetch (csrfHeaders c)) w)\<lparr>authTokenCache := t\<rparr>, t)"
  by (subst fetchLoop.simps) (simp add: Let_def)

lemma fetchLoop_Some:
  "fetchLoop net d c attempt w = (w', Some T) \<Longrightarrow> authTokenCache w' = Some T"
proof (induction net d c attempt w rule: fetchLoop.induct)
  case (1 net d c attempt w)
  show ?case
  proof (cases "attempt < maxRetries")
    case False
    with "1.prems" show ?thesis by (simp add: fetchLoop_done)
  next
    case True
    show ?thesis
    proof (cases "tryFetch (net attempt)")
      case (Inr t)
      with True "1.prems" show ?thesis by (auto simp: fetchLoop_ok)
    next
      case (Inl m)
      with True "1.prems" "1.IH"[OF True refl Inl refl refl] show ?thesis
        by (simp add: fetchLoop_fail)
    qed
  qed
qed

lemma getAuthToken_Some:
  assumes "getAuthToken d c net w = (w', Inr (Some T))"
  shows "authTokenCache w' = Some T"
proof (cases "truthy (authTokenCache w)")
  case True
  with assms show ?thesis by (auto simp: getAuthToken_def)
next
  case False
  with assms show ?thesis
    by (auto simp: getAuthToken_def split: prod.splits sum.splits dest: fetchLoop_Some)
qed

lemma getAuthToken_hit:
  "truthy (authTokenCache w) \<Longrightarrow> getAuthToken d c net w = (w, Inr (authTokenCache w))"
  by (simp add: getAuthToken_def)

lemma run_Nil: "run [] w = w"
  by (simp add: run_def)

lemma run_Cons: "run (e # es) w = run es (step e w)"
  by (simp add: run_def)

lemma run_append: "run (es @ es') w = run es' (run es w)"
  by (simp add: run_def)


lemma utils_getCsrfToken_abc123:
  "utils_getCsrfToken ''XSRF-TOKEN=abc123'' init =
     (init\<lparr>utils_csrfTokenCache := Some ''abc123'',
          trace := [ReadCookie AuthTokenUtils, Log ''Extracted CSRF token from cookies:'']\<rparr>,
      Inr (Some ''abc123''))"
  by code_simp

text \<open>
  Whatever the network gives, a call fetches the token endpoint at most twice. The one
  way for a call to throw is the \<open>URIError\<close> of the CSRF lookup, on a cookie with a
  malformed escape, raised before the first attempt.
\<close>

lemma getAuthToken_throws:
  "\<not> truthy (authTokenCache w) \<Longrightarrow> utils_getCsrfToken documentCookie w = (w1, Inl e) \<Longrightarrow>
   getAuthToken retryDelay documentCookie net w = (w1, Inl e)"
  by (simp add: getAuthToken_def)

lemma fetchLoop_fetches:
  "length (filter (\<lambda>x. \<exists>h. x = Fetch h) (trace (fst (fetchLoop net d c attempt w)))) \<le>
   length (filter (\<lambda>x. \<exists>h. x = Fetch h) (trace w)) + (maxRetries - attempt)"
proof (induction net d c attempt w rule: fetchLoop.induct)
  case (1 net d c attempt w)
  show ?case
  proof (cases "attempt < maxRetries")
    case False
    then show ?thesis by (simp add: fetchLoop_done emit_def)
  next
    case True
    show ?thesis
    proof (cases "tryFetch (net attempt)")
      case (Inr t)
      with True show ?thesis by (simp add: fetchLoop_ok emit_def)
    next
      case (Inl m)
      with True "1.IH"[OF True refl Inl refl refl] show ?thesis
        by (auto simp: fetchLoop_fail emit_def split: if_splits)
    qed
  qed
qed

lemma getAuthToken_at_most_two_fetches:
  "length (filter (\<lambda>x. \<exists>h. x = Fetch h) (trace (fst (getAuthToken d documentCookie net w)))) \<le>
   length (filter (\<lambda>x. \<exists>h. x = Fetch h) (trace w)) + 2"
proof (cases "truthy (authTokenCache w)")
  case True
  then show ?thesis by (simp add: getAuthToken_def)
next
  case False
  obtain w1 r where u: "utils_getCsrfToken documentCookie w = (w1, r)"
    by (cases "utils_getCsrfToken documentCookie w")
  then have t: "filter (\<lambda>x. \<exists>h. x = Fetch h) (trace w1) = filter (\<lambda>x. \<exists>h. x = Fetch h) (trace w)"
    by (auto simp: utils_getCsrfToken_def emit_def Let_def split: if_splits sum.splits)
  show ?thesis
  proof (cases r)
    case (Inl e)
    with False u t show ?thesis by (simp add: getAuthToken_def)
  next
    case (Inr csrfToken)
    from fetchLoop_fetches[of net d csrfToken 0 w1] t False u Inr show ?thesis
      by (auto simp: getAuthToken_def maxRetries_def split: prod.splits)
  qed
qed

text \<open>
  C4. With an empty cache and a CSRF lookup that returns, a call whose two attempts both
  fail makes exactly two fetches of the token endpoint, sleeps \<open>retryDelay\<close> once, between
  the first failure and the second fetch and not after the second failure, and returns
  \<open>null\<close>: nothing is thrown.
\<close>

theorem getAuthToken_exhausted:
  assumes "\<not> truthy (authTokenCache w)"
    and "utils_getCsrfToken documentCookie w = (w1, Inr csrfToken)"
    and "tryFetch (net 0) = Inl m1" and "tryFetch (net 1) = Inl m2"
  shows "getAuthToken retryDelay documentCookie net w =
    (w1\<lparr>trace := trace w1 @
        [Fetch (csrfHeaders csrfToken), LogAttempt 1 m1, Log ''Retrying'', Sleep retryDelay,
         Fetch (csrfHeaders csrfToken), LogAttempt 2 m2,
         LogError ''Max retries reached. Could not fetch token.'']\<rparr>, Inr None)"
proof -
  have a: "0 < maxRetries" "Suc 0 < maxRetries" "\<not> Suc (Suc 0) < maxRetries"
    "maxRetries \<le> Suc (Suc 0)"
    by (simp_all add: maxRetries_def)
  have "fetchLoop net retryDelay csrfToken 0 w1 =
    (w1\<lparr>trace := trace w1 @
        [Fetch (csrfHeaders csrfToken), LogAttempt 1 m1, Log ''Retrying'', Sleep retryDelay,
         Fetch (csrfHeaders csrfToken), LogAttempt 2 m2,
         LogError ''Max retries reached. Could not fetch token.'']\<rparr>, None)"
    using assms(3,4) a
    by (simp add: fetchLoop_fail[of 0] fetchLoop_fail[of "Suc 0"] fetchLoop_done[of "Suc (Suc 0)"] emit_def)
  with assms(1,2) show ?thesis
    by (simp add: getAuthToken_def)
qed

theorem getAuthToken_exhausted_witness:
  "\<not> truthy (authTokenCache init) \<and>
   tryFetch NetworkError = Inl FetchRejected \<and>
   getAuthToken 1000 ''XSRF-TOKEN=abc123'' (\<lambda>k. NetworkError) init =
     (init\<lparr>utils_csrfTokenCache := Some ''abc123'',
          trace := [ReadCookie AuthTokenUtils, Log ''Extracted CSRF token from cookies:'',
                    Fetch [(''X-CSRF-Token'', ''abc123'')], LogAttempt 1 FetchRejected,
                    Log ''Retrying'', Sleep 1000,
                    Fetch [(''X-CSRF-Token'', ''abc123'')], LogAttempt 2 FetchRejected,
                    LogError ''Max retries reached. Could not fetch token.'']\<rparr>,
      Inr None)"
proof -
  have h1: "\<not> truthy (authTokenCache init)"
    by (simp add: init_def truthy_def)
  have h3: "tryFetch NetworkError = Inl FetchRejected"
    by (simp add: tryFetch_def)
  from getAuthToken_exhausted[where net = "\<lambda>k. NetworkError" and retryDelay = 1000,
      OF h1 utils_getCsrfToken_abc123 h3 h3] h1 h3
  show ?thesis
    by (simp add: csrfHeaders_def)
qed

text \<open>
  The function cut at its \<open>await\<close>s is the function above when the call runs alone:
  woken at once each time it is suspended, it ends within six steps, in the same state
  and with the same return or throw.
\<close>

lemma maxRetries_facts:
  "0 < maxRetries" "Suc 0 < maxRetries" "\<not> Suc (Suc 0) < maxRetries" "maxRetries \<le> Suc (Suc 0)"
  by (simp_all add: maxRetries_def)

lemma runCall_Done [simp]: "runCall n net (w, Done r) = (w, Done r)"
  by (cases n) simp_all

lemma runCall_second:
  "runCall (Suc (Suc n)) net (loopHead d c (Suc 0) w) =
     (case fetchLoop net d c (Suc 0) w of (w2, token) \<Rightarrow> (w2, Done (Inr token)))"
proof (cases "net (Suc 0)")
  case NetworkError
  then have "tryFetch (net (Suc 0)) = Inl FetchRejected"
    by (simp add: tryFetch_def)
  with NetworkError show ?thesis
    by (simp add: fetchLoop_fail[of "Suc 0"] fetchLoop_done[of "Suc (Suc 0)"] maxRetries_facts
        loopHead_def catchAttempt_def)
next
  case (HttpResponse ok body)
  show ?thesis
  proof (cases ok)
    case False
    with HttpResponse have "tryFetch (net (Suc 0)) = Inl FailedToFetchToken"
      by (simp add: tryFetch_def)
    with HttpResponse False show ?thesis
      by (simp add: fetchLoop_fail[of "Suc 0"] fetchLoop_done[of "Suc (Suc 0)"] maxRetries_facts
          loopHead_def catchAttempt_def)
  next
    case True
    show ?thesis
    proof (cases body)
      case NotJson
      with HttpResponse True have "tryFetch (net (Suc 0)) = Inl JsonRejected"
        by (simp add: tryFetch_def)
      with HttpResponse True NotJson show ?thesis
        by (simp add: fetchLoop_fail[of "Suc 0"] fetchLoop_done[of "Suc (Suc 0)"] maxRetries_facts
            loopHead_def catchAttempt_def)
    next
      case JsonNull
      with HttpResponse True have "tryFetch (net (Suc 0)) = Inl TokenOfNull"
        by (simp add: tryFetch_def)
      with HttpResponse True JsonNull show ?thesis
        by (simp add: fetchLoop_fail[of "Suc 0"] fetchLoop_done[of "Suc (Suc 0)"] maxRetries_facts
            loopHead_def catchAttempt_def)
    next
      case (JsonObject t)
      with HttpResponse True have "tryFetch (net (Suc 0)) = Inr t"
        by (simp add: tryFetch_def)
      with HttpResponse True JsonObject show ?thesis
        by (simp add: fetchLoop_ok[of "Suc 0"] maxRetries_facts loopHead_def emit_def)
    qed
  qed
qed

lemma runCall_first:
  "runCall (Suc (Suc (Suc (Suc (Suc 0))))) net (loopHead d c 0 w) =
     (case fetchLoop net d c 0 w of (w2, token) \<Rightarrow> (w2, Done (Inr token)))"
proof -
  have f: "runCall (Suc (Suc (Suc (Suc (Suc 0))))) net (loopHead d c 0 w) =
      (case fetchLoop net d c 0 w of (w2, token) \<Rightarrow> (w2, Done (Inr token)))"
    if t: "tryFetch (net 0) = Inl x"
      and r: "resume (FetchSettled (net 0)) (AtFetch d c 0) (emit (Fetch (csrfHeaders c)) w) =
        catchAttempt d c 0 x (emit (Fetch (csrfHeaders c)) w) \<or>
        (\<exists>body. resume (FetchSettled (net 0)) (AtFetch d c 0) (emit (Fetch (csrfHeaders c)) w) =
          (emit (Fetch (csrfHeaders c)) w, Pending (AtJson d c 0 body)) \<and>
          resume JsonSettled (AtJson d c 0 body) (emit (Fetch (csrfHeaders c)) w) =
            catchAttempt d c 0 x (emit (Fetch (csrfHeaders c)) w))"
    for x
  proof -
    let ?v = "emit (Sleep d) (emit (Log ''Retrying'') (emit (LogAttempt (Suc 0) x)
      (emit (Fetch (csrfHeaders c)) w)))"
    have c: "catchAttempt d c 0 x (emit (Fetch (csrfHeaders c)) w) = (?v, Pending (AtSleep d c (Suc 0)))"
      by (simp add: catchAttempt_def maxRetries_facts)
    have g: "fetchLoop net d c 0 w = fetchLoop net d c (Suc 0) ?v"
      using t by (simp add: fetchLoop_fail[of 0] maxRetries_facts)
    from r show ?thesis
    proof
      assume "resume (FetchSettled (net 0)) (AtFetch d c 0) (emit (Fetch (csrfHeaders c)) w) =
        catchAttempt d c 0 x (emit (Fetch (csrfHeaders c)) w)"
      then show ?thesis
        using runCall_second[of "Suc 0" net d c ?v]
        by (simp add: loopHead_def[of d c 0] maxRetries_facts c g)
    next
      assume "\<exists>body. resume (FetchSettled (net 0)) (AtFetch d c 0) (emit (Fetch (csrfHeaders c)) w) =
          (emit (Fetch (csrfHeaders c)) w, Pending (AtJson d c 0 body)) \<and>
          resume JsonSettled (AtJson d c 0 body) (emit (Fetch (csrfHeaders c)) w) =
            catchAttempt d c 0 x (emit (Fetch (csrfHeaders c)) w)"
      then show ?thesis
        using runCall_second[of 0 net d c ?v]
        by (auto simp: loopHead_def[of d c 0] maxRetries_facts c g)
    qed
  qed
  show ?thesis
  proof (cases "net 0")
    case NetworkError
    then show ?thesis
      by (intro f[of FetchRejected]) (simp_all add: tryFetch_def)
  next
    case (HttpResponse ok body)
    show ?thesis
    proof (cases ok)
      case False
      with HttpResponse show ?thesis
        by (intro f[of FailedToFetchToken]) (simp_all add: tryFetch_def)
    next
      case True
      show ?thesis
      proof (cases body)
        case NotJson
        with HttpResponse True show ?thesis
          by (intro f[of JsonRejected]) (simp_all add: tryFetch_def)
      next
        case JsonNull
        with HttpResponse True show ?thesis
          by (intro f[of TokenOfNull]) (simp_all add: tryFetch_def)
      next
        case (JsonObject t)
        with HttpResponse True have "tryFetch (net 0) = Inr t"
          by (simp add: tryFetch_def)
        with HttpResponse True JsonObject show ?thesis
          by (simp add: fetchLoop_ok[of 0] maxRetries_facts loopHead_def emit_def)
      qed
    qed
  qed
qed

lemma getAuthToken_alone:
  "runCall 6 net (callGetAuthToken d c w) =
     (case getAuthToken d c net w of (w', r) \<Rightarrow> (w', Done r))"
proof (cases "truthy (authTokenCache w)")
  case True
  then show ?thesis
    by (simp add: callGetAuthToken_def getAuthToken_def eval_nat_numeral)
next
  case False
  obtain w1 r where u: "utils_getCsrfToken c w = (w1, r)"
    by (cases "utils_getCsrfToken c w")
  have s: "runCall 6 net (w1, Pending (AtCsrf d r)) =
    runCall (Suc (Suc (Suc (Suc (Suc 0))))) net (resume CsrfAwaited (AtCsrf d r) w1)"
    by (simp add: eval_nat_numeral)
  show ?thesis
  proof (cases r)
    case (Inl e)
    with False u s show ?thesis
      by (simp add: callGetAuthToken_def getAuthToken_def)
  next
    case (Inr csrf)
    with False u s runCall_first[of net d csrf w1] show ?thesis
      by (simp add: callGetAuthToken_def getAuthToken_def split: prod.splits)
  qed
qed

section \<open>Facts about the refresh coordinator\<close>

lemma onRejected_refreshing:
  "isRefreshing w \<Longrightarrow>
   onRejected error w =
     (if refreshable error
      then (w\<lparr>failedQueue := failedQueue w @ [rid (config error)]\<rparr>, Queued)
      else (w, Rejected error))"
  by (simp add: onRejected_def)

lemma settle_token:
  "t \<noteq> [] \<Longrightarrow> concat (map (settle error (Some t)) q) = map (\<lambda>prom. Resolve prom t) q"
  by (induction q) (simp_all add: settle_def)

lemma settle_error:
  "concat (map (settle (Some error) None) q) = map (\<lambda>prom. Reject prom error) q"
  by (induction q) (simp_all add: settle_def)

lemma afterRefresh_token:
  "t \<noteq> [] \<Longrightarrow>
   afterRefresh error (PostResolved (Data (Some t))) w =
     (w\<lparr>defaultAuthorization := Some (bearer t),
        trace := trace w @ map (\<lambda>prom. Resolve prom t) (failedQueue w)
                 @ [Replay (setHeader ''Authorization'' (bearer t) (config error))],
        failedQueue := [], isRefreshing := False\<rparr>,
      Replayed (setHeader ''Authorization'' (bearer t) (config error)))"
  by (simp add: afterRefresh_def processQueue_def emit_def settle_token Let_def)

lemma catchBlock_eq:
  "catchBlock error w =
     (w\<lparr>trace := trace w @ map (\<lambda>prom. Reject prom error) (failedQueue w)
                 @ [LogError ''Token refresh failed:'', Redirect ''/login''],
        failedQueue := [], isRefreshing := False\<rparr>,
      Rejected error)"
  by (simp add: catchBlock_def processQueue_def emit_def settle_error Let_def)

lemma afterRefresh_tokenless:
  "\<not> truthy token \<Longrightarrow>
   afterRefresh error (PostResolved (Data token)) w = (w\<lparr>isRefreshing := False\<rparr>, Rejected error)"
  by (auto simp: afterRefresh_def truthy_def split: option.splits)

text \<open>
  C2, at the input where the code departs from it. Three requests meet a 498 while the
  auth token cache holds \<open>T1\<close>, and the one refresh call returns the token \<open>T2\<close>. The
  promises of the queued requests 2 and 3 are resolved with the string \<open>T2\<close> and the
  requests are not sent again; request 1 alone is replayed, and on its way out the
  request interceptor sets its \<open>Authorization\<close> header back to the cached \<open>Bearer T1\<close>.
\<close>

theorem queued_requests_not_replayed:
  "run [ResponseError (expired (req 1)), ResponseError (expired (req 2)),
        ResponseError (expired (req 3)), RefreshSettled 0 (PostResolved (Data (Some ''T2'')))]
     (init\<lparr>authTokenCache := Some ''T1''\<rparr>) =
     init\<lparr>authTokenCache := Some ''T1'', defaultAuthorization := Some ''Bearer T2'',
          trace := [RefreshCall, Resolve 2 ''T2'', Resolve 3 ''T2'',
                    Replay ((req 1)\<lparr>headers := [(''Authorization'', ''Bearer T2'')],
                                     retry := True\<rparr>)]\<rparr> \<and>
   snd (requestInterceptor [] (\<lambda>k. NetworkError)
          (init\<lparr>authTokenCache := Some ''T1'', defaultAuthorization := Some ''Bearer T2''\<rparr>)
          ((req 1)\<lparr>headers := [(''Authorization'', ''Bearer T2'')], retry := True\<rparr>)) =
     Inr ((req 1)\<lparr>headers := [(''Authorization'', ''Bearer T1'')], retry := True\<rparr>)"
proof
  show "run [ResponseError (expired (req 1)), ResponseError (expired (req 2)),
        ResponseError (expired (req 3)), RefreshSettled 0 (PostResolved (Data (Some ''T2'')))]
     (init\<lparr>authTokenCache := Some ''T1''\<rparr>) =
     init\<lparr>authTokenCache := Some ''T1'', defaultAuthorization := Some ''Bearer T2'',
          trace := [RefreshCall, Resolve 2 ''T2'', Resolve 3 ''T2'',
                    Replay ((req 1)\<lparr>headers := [(''Authorization'', ''Bearer T2'')],
                                     retry := True\<rparr>)]\<rparr>"
    by code_simp
next
  have "getCookieByName [] ''XSRF-TOKEN'' = Inr None"
    by code_simp
  then show "snd (requestInterceptor [] (\<lambda>k. NetworkError)
          (init\<lparr>authTokenCache := Some ''T1'', defaultAuthorization := Some ''Bearer T2''\<rparr>)
          ((req 1)\<lparr>headers := [(''Authorization'', ''Bearer T2'')], retry := True\<rparr>)) =
     Inr ((req 1)\<lparr>headers := [(''Authorization'', ''Bearer T1'')], retry := True\<rparr>)"
    by (simp add: requestInterceptor_def axios_getCsrfToken_def getAuthToken_def truthy_def
        init_def emit_def setHeader_def bearer_def req_def)
qed

text \<open>
  C3. When the refresh call is rejected, every promise of the queue is rejected with the
  error of the request that started the refresh, in queue order, the queue is emptied,
  the failure is logged, \<open>/login\<close> is entered once, no refresh call is made again, and the
  handler rejects with that same error. Whatever the refresh call gave, the \<open>finally\<close>
  leaves \<open>isRefreshing\<close> false.
\<close>

theorem refresh_failure:
  "afterRefresh error PostRejected w =
     (w\<lparr>trace := trace w @ map (\<lambda>prom. Reject prom error) (failedQueue w)
                 @ [LogError ''Token refresh failed:'', Redirect ''/login''],
        failedQueue := [], isRefreshing := False\<rparr>,
      Rejected error) \<and>
   count_list (trace (fst (afterRefresh error PostRejected w))) (Redirect ''/login'') =
     Suc (count_list (trace w) (Redirect ''/login'')) \<and>
   count_list (trace (fst (afterRefresh error PostRejected w))) RefreshCall =
     count_list (trace w) RefreshCall \<and>
   \<not> isRefreshing (fst (afterRefresh error outcome w))"
proof (intro conjI)
  show e: "afterRefresh error PostRejected w =
     (w\<lparr>trace := trace w @ map (\<lambda>prom. Reject prom error) (failedQueue w)
                 @ [LogError ''Token refresh failed:'', Redirect ''/login''],
        failedQueue := [], isRefreshing := False\<rparr>,
      Rejected error)"
    by (simp add: afterRefresh_def catchBlock_eq)
  have c: "count_list (map (\<lambda>prom. Reject prom error) q) (Redirect ''/login'') = 0"
    "count_list (map (\<lambda>prom. Reject prom error) q) RefreshCall = 0" for q
    by (induction q) simp_all
  show "count_list (trace (fst (afterRefresh error PostRejected w))) (Redirect ''/login'') =
     Suc (count_list (trace w) (Redirect ''/login''))"
    by (simp add: e c)
  show "count_list (trace (fst (afterRefresh error PostRejected w))) RefreshCall =
     count_list (trace w) RefreshCall"
    by (simp add: e c)
  show "\<not> isRefreshing (fst (afterRefresh error outcome w))"
    by (cases outcome)
      (auto simp: afterRefresh_def catchBlock_eq Let_def split: response_data.splits option.splits)
qed

text \<open>
  C8, at the input where the code departs from it. Request 1 starts a refresh, request 2
  is queued, and the refresh endpoint answers without a token: the flag is reset while
  the queue still holds request 2, which that refresh cycle neither resolved nor rejected.
\<close>

theorem queue_left_after_tokenless_refresh:
  "run [ResponseError (expired (req 1)), ResponseError (expired (req 2)),
        RefreshSettled 0 (PostResolved (Data None))] init =
     init\<lparr>failedQueue := [2], trace := [RefreshCall]\<rparr> \<and>
   \<not> isRefreshing (run [ResponseError (expired (req 1)), ResponseError (expired (req 2)),
        RefreshSettled 0 (PostResolved (Data None))] init) \<and>
   failedQueue (run [ResponseError (expired (req 1)), ResponseError (expired (req 2)),
        RefreshSettled 0 (PostResolved (Data None))] init) \<noteq> []"
  by code_simp

text \<open>
  C10 as it is stated fails on "forever": the queue left over by a refresh without a token
  is processed by the next refresh cycle. Here request 2 is left in the queue, request 3
  starts a second refresh, and its token \<open>T3\<close> resolves the promise of request 2.
\<close>

theorem stale_queue_settled_by_later_refresh:
  "run [ResponseError (expired (req 1)), ResponseError (expired (req 2)),
        RefreshSettled 0 (PostResolved (Data None)),
        ResponseError (expired (req 3)), RefreshSettled 0 (PostResolved (Data (Some ''T3'')))] init =
     init\<lparr>defaultAuthorization := Some ''Bearer T3'',
          trace := [RefreshCall, RefreshCall, Resolve 2 ''T3'',
                    Replay ((req 3)\<lparr>headers := [(''Authorization'', ''Bearer T3'')],
                                     retry := True\<rparr>)]\<rparr>"
  by code_simp

section \<open>What the credential store leaves alone\<close>

lemma settled_append: "settled (xs @ ys) = settled xs @ settled ys"
  by (induction xs rule: settled.induct) simp_all

lemma credentialStep_refl: "credentialStep w w"
  by (simp add: credentialStep_def)

lemma credentialStep_trans:
  assumes "credentialStep w w'" and "credentialStep w' w''"
  shows "credentialStep w w''"
proof -
  from assms(1) obtain xs where x: "trace w' = trace w @ xs" "settled xs = []"
    "count_list xs RefreshCall = 0"
    "\<forall>m. truthy (csrfTokenCache m w) \<longrightarrow>
       csrfTokenCache m w' = csrfTokenCache m w \<and> count_list xs (ReadCookie m) = 0"
    by (auto simp: credentialStep_def)
  from assms(2) obtain ys where y: "trace w'' = trace w' @ ys" "settled ys = []"
    "count_list ys RefreshCall = 0"
    "\<forall>m. truthy (csrfTokenCache m w') \<longrightarrow>
       csrfTokenCache m w'' = csrfTokenCache m w' \<and> count_list ys (ReadCookie m) = 0"
    by (auto simp: credentialStep_def)
  have "trace w'' = trace w @ (xs @ ys)"
    by (simp add: x(1) y(1))
  moreover have "settled (xs @ ys) = []" "count_list (xs @ ys) RefreshCall = 0"
    by (simp_all add: settled_append x y)
  moreover have "\<forall>m. truthy (csrfTokenCache m w) \<longrightarrow>
       csrfTokenCache m w'' = csrfTokenCache m w \<and> count_list (xs @ ys) (ReadCookie m) = 0"
    using x(4) y(4) by auto
  ultimately show ?thesis
    using assms by (auto simp: credentialStep_def)
qed

lemma credentialStep_emit:
  "settled [x] = [] \<Longrightarrow> x \<noteq> RefreshCall \<Longrightarrow> \<forall>m. x \<noteq> ReadCookie m \<Longrightarrow>
   credentialStep w (emit x w)"
  by (auto simp: credentialStep_def emit_def csrfTokenCache_def split: module.splits)

lemma utils_getCsrfToken_step:
  "credentialStep w (fst (utils_getCsrfToken documentCookie w))"
  by (auto simp: credentialStep_def utils_getCsrfToken_def emit_def csrfTokenCache_def Let_def
      split: module.splits sum.splits)

lemma axios_getCsrfToken_step:
  "credentialStep w (fst (axios_getCsrfToken documentCookie w))"
  by (auto simp: credentialStep_def axios_getCsrfToken_def emit_def csrfTokenCache_def Let_def
      split: module.splits sum.splits)

lemma getCsrfToken_step: "credentialStep w (fst (getCsrfToken m documentCookie w))"
  by (cases m) (simp_all add: getCsrfToken_def utils_getCsrfToken_step axios_getCsrfToken_step)

lemma onRejected_caches:
  "authTokenCache (fst (onRejected error w)) = authTokenCache w \<and>
   csrfTokenCache m (fst (onRejected error w)) = csrfTokenCache m w \<and>
   count_list (trace (fst (onRejected error w))) (ReadCookie m) = count_list (trace w) (ReadCookie m)"
  by (simp add: onRejected_def emit_def csrfTokenCache_def split: module.splits)

lemma count_list_map_Resolve:
  "count_list (map (\<lambda>prom. Resolve prom t) q) (ReadCookie m) = 0"
  by (induction q) simp_all

lemma count_list_map_Reject:
  "count_list (map (\<lambda>prom. Reject prom e) q) (ReadCookie m) = 0"
  by (induction q) simp_all

lemma afterRefresh_cases:
  "afterRefresh error outcome w = catchBlock error w \<or>
   (\<exists>token. \<not> truthy token \<and> outcome = PostResolved (Data token)) \<or>
   (\<exists>t. t \<noteq> [] \<and> outcome = PostResolved (Data (Some t)))"
  by (auto simp: afterRefresh_def truthy_def split: refresh_outcome.splits response_data.splits
      option.splits)

lemma afterRefresh_caches:
  "authTokenCache (fst (afterRefresh error outcome w)) = authTokenCache w \<and>
   csrfTokenCache m (fst (afterRefresh error outcome w)) = csrfTokenCache m w \<and>
   count_list (trace (fst (afterRefresh error outcome w))) (ReadCookie m) =
     count_list (trace w) (ReadCookie m)"
  using afterRefresh_cases[of error outcome w]
  by (auto simp: catchBlock_eq afterRefresh_tokenless afterRefresh_token csrfTokenCache_def
      count_list_map_Resolve count_list_map_Reject split: module.splits)

lemma csrfTokenCache_other [simp]:
  "csrfTokenCache m (w\<lparr>fetching := x\<rparr>) = csrfTokenCache m w"
  "csrfTokenCache m (w\<lparr>authTokenCache := y\<rparr>) = csrfTokenCache m w"
  by (cases m; simp add: csrfTokenCache_def)+

lemma credentialStep_fetching:
  "credentialStep w w' \<Longrightarrow> credentialStep w (w'\<lparr>fetching := x\<rparr>)"
  by (simp add: credentialStep_def)

lemma credentialStep_authTokenCache:
  "credentialStep w w' \<Longrightarrow> credentialStep w (w'\<lparr>authTokenCache := x\<rparr>)"
  by (simp add: credentialStep_def)

lemma callGetAuthToken_step: "credentialStep w (fst (callGetAuthToken d documentCookie w))"
  using utils_getCsrfToken_step[of w documentCookie]
  by (auto simp: callGetAuthToken_def credentialStep_refl split: prod.splits)

lemma loopHead_step: "credentialStep w (fst (loopHead d c a w))"
  by (simp add: loopHead_def credentialStep_emit)

lemma catchAttempt_step: "credentialStep w (fst (catchAttempt d c a x w))"
proof -
  let ?w2 = "emit (LogAttempt (Suc a) x) w"
  have 1: "credentialStep w ?w2"
    by (rule credentialStep_emit) simp_all
  have 2: "credentialStep ?w2 (emit (Sleep d) (emit (Log ''Retrying'') ?w2))"
    by (rule credentialStep_trans[of _ "emit (Log ''Retrying'') ?w2"];
        rule credentialStep_emit; simp)
  from 1 2 loopHead_step[of ?w2 d c "Suc a"] show ?thesis
    by (auto simp: catchAttempt_def Let_def intro: credentialStep_trans)
qed

lemma resume_step: "credentialStep w (fst (resume x f w))"
  by (cases "(x, f, w)" rule: resume.cases)
    (auto simp: loopHead_step catchAttempt_step credentialStep_refl credentialStep_authTokenCache
      split: sum.splits fetch_result.splits json.splits)

lemma step_credential:
  "(\<exists>error. ev = ResponseError error) \<or> (\<exists>k outcome. ev = RefreshSettled k outcome) \<or>
   credentialStep w (step ev w)"
proof (cases ev)
  case (CallGetCsrfToken m documentCookie)
  then show ?thesis by (simp add: getCsrfToken_step)
next
  case (CallGetAuthToken d documentCookie)
  with callGetAuthToken_step[of w d documentCookie] show ?thesis
    by (auto simp: credentialStep_fetching split: prod.splits call_status.splits)
next
  case (TokenCall k x)
  with resume_step[of w x "fetching w ! k"] show ?thesis
    by (auto simp: credentialStep_fetching credentialStep_refl
        split: prod.splits call_status.splits)
next
  case InterceptorCatch
  then show ?thesis by (simp add: credentialStep_emit)
qed simp_all

lemma step_caches:
  assumes "truthy (csrfTokenCache m w)"
  shows "csrfTokenCache m (step ev w) = csrfTokenCache m w \<and>
         count_list (trace (step ev w)) (ReadCookie m) = count_list (trace w) (ReadCookie m)"
  using step_credential[of ev w]
proof (elim disjE exE)
  fix error assume "ev = ResponseError error"
  then show ?thesis by (simp add: onRejected_caches)
next
  fix k outcome assume "ev = RefreshSettled k outcome"
  then show ?thesis
    using afterRefresh_caches[of "suspended w ! k" outcome
        "w\<lparr>suspended := take k (suspended w) @ drop (Suc k) (suspended w)\<rparr>" m]
    by (simp add: csrfTokenCache_def split: module.splits)
next
  assume "credentialStep w (step ev w)"
  with assms show ?thesis
    by (auto simp: credentialStep_def)
qed

lemma run_caches:
  "truthy (csrfTokenCache m w) \<Longrightarrow>
   csrfTokenCache m (run events w) = csrfTokenCache m w \<and>
   count_list (trace (run events w)) (ReadCookie m) = count_list (trace w) (ReadCookie m)"
proof (induction events arbitrary: w)
  case Nil
  then show ?case by (simp add: run_Nil)
next
  case (Cons ev events)
  from step_caches[OF Cons.prems, of ev] Cons.prems
  have "truthy (csrfTokenCache m (step ev w))" by simp
  from Cons.IH[OF this] step_caches[OF Cons.prems, of ev] show ?case
    by (simp add: run_Cons)
qed

lemma credentialStep_queue:
  "credentialStep w w' \<Longrightarrow>
   settled (trace w') = settled (trace w) \<and> failedQueue w' = failedQueue w \<and>
   count_list (trace w') RefreshCall = count_list (trace w) RefreshCall \<and>
   isRefreshing w' = isRefreshing w \<and> suspended w' = suspended w"
  by (auto simp: credentialStep_def settled_append)

lemma step_no_drain:
  assumes "\<not> drains ev"
  shows "settled (trace (step ev w)) = settled (trace w) \<and>
         prefix (failedQueue w) (failedQueue (step ev w))"
  using step_credential[of ev w]
proof (elim disjE exE)
  fix error assume "ev = ResponseError error"
  then show ?thesis
    by (simp add: onRejected_def emit_def settled_append)
next
  fix k outcome assume e: "ev = RefreshSettled k outcome"
  show ?thesis
  proof (cases "k < length (suspended w)")
    case False
    with e show ?thesis by simp
  next
    case True
    from assms e obtain token where "outcome = PostResolved (Data token)" "\<not> truthy token"
      by (cases ev rule: drains.cases) auto
    with True e show ?thesis
      by (simp add: afterRefresh_tokenless)
  qed
next
  assume "credentialStep w (step ev w)"
  from credentialStep_queue[OF this] show ?thesis
    by simp
qed

lemma decodeLoop_plain: "CHR ''%'' \<notin> set s \<Longrightarrow> decodeLoop s = Inr s"
  by (induction s) auto

lemma findCookie_None:
  "findCookie name cookies = Inr None \<longleftrightarrow>
   (\<forall>cookie\<in>set cookies. \<forall>key rest. split cookie ''='' = key # rest \<longrightarrow> key \<noteq> name)"
  by (induction cookies) (auto split: list.splits sum.splits)

lemma getCsrfToken_authTokenCache:
  "authTokenCache (fst (getCsrfToken m documentCookie w)) = authTokenCache w"
  by (cases m)
    (auto simp: getCsrfToken_def utils_getCsrfToken_def axios_getCsrfToken_def emit_def Let_def
      split: sum.splits)

lemma afterRefresh_flag: "\<not> isRefreshing (fst (afterRefresh error outcome w))"
  using afterRefresh_cases[of error outcome w]
  by (auto simp: catchBlock_eq afterRefresh_tokenless afterRefresh_token)

lemma afterRefresh_suspended:
  "suspended (fst (afterRefresh error outcome w)) = suspended w"
  using afterRefresh_cases[of error outcome w]
  by (auto simp: catchBlock_eq afterRefresh_tokenless afterRefresh_token)

lemma filter_Fetch_map:
  "filter (\<lambda>x. \<exists>h. x = Fetch h) (map (\<lambda>prom. Resolve prom t) q) = []"
  "filter (\<lambda>x. \<exists>h. x = Fetch h) (map (\<lambda>prom. Reject prom e) q) = []"
  by (induction q) simp_all

lemma afterRefresh_fetching:
  "fetching (fst (afterRefresh error outcome w)) = fetching w \<and>
   filter (\<lambda>x. \<exists>h. x = Fetch h) (trace (fst (afterRefresh error outcome w))) =
     filter (\<lambda>x. \<exists>h. x = Fetch h) (trace w)"
  using afterRefresh_cases[of error outcome w]
  by (auto simp: catchBlock_eq afterRefresh_tokenless afterRefresh_token filter_Fetch_map)

lemma responseErrors_Cons:
  "responseErrors (ev # events) = responseErrors [ev] @ responseErrors events"
  by (cases ev) simp_all

lemma step_while_refreshing:
  assumes "isRefreshing w" and "suspended w = [trigger]" and "\<not> refreshSettles ev"
  shows "isRefreshing (step ev w) \<and> suspended (step ev w) = [trigger] \<and>
         count_list (trace (step ev w)) RefreshCall = count_list (trace w) RefreshCall \<and>
         settled (trace (step ev w)) = settled (trace w) \<and>
         failedQueue (step ev w) =
           failedQueue w @ map (\<lambda>e. rid (config e)) (filter refreshable (responseErrors [ev]))"
proof (cases ev)
  case (ResponseError error)
  with assms show ?thesis
    by (simp add: onRejected_refreshing)
next
  case (RefreshSettled k outcome)
  with assms show ?thesis by simp
next
  case (CallGetCsrfToken m documentCookie)
  with assms credentialStep_queue[of w "step ev w"] step_credential[of ev w] show ?thesis
    by simp
next
  case (CallGetAuthToken d documentCookie)
  with assms credentialStep_queue[of w "step ev w"] step_credential[of ev w] show ?thesis
    by simp
next
  case (TokenCall k x)
  with assms credentialStep_queue[of w "step ev w"] step_credential[of ev w] show ?thesis
    by simp
next
  case InterceptorCatch
  with assms credentialStep_queue[of w "step ev w"] step_credential[of ev w] show ?thesis
    by simp
qed

lemma run_while_refreshing:
  assumes "isRefreshing w" and "suspended w = [trigger]"
    and "\<forall>ev\<in>set events. \<not> refreshSettles ev"
  shows "isRefreshing (run events w) \<and> suspended (run events w) = [trigger] \<and>
         count_list (trace (run events w)) RefreshCall = count_list (trace w) RefreshCall \<and>
         settled (trace (run events w)) = settled (trace w) \<and>
         failedQueue (run events w) =
           failedQueue w @ map (\<lambda>e. rid (config e)) (filter refreshable (responseErrors events))"
  using assms
proof (induction events arbitrary: w)
  case Nil
  then show ?case by (simp add: run_Nil)
next
  case (Cons ev events)
  from Cons.prems have n: "\<not> refreshSettles ev" and r: "\<forall>ev\<in>set events. \<not> refreshSettles ev"
    by simp_all
  note s = step_while_refreshing[OF Cons.prems(1,2) n]
  from s have a: "isRefreshing (step ev w)" and b: "suspended (step ev w) = [trigger]"
    by simp_all
  from Cons.IH[OF a b r] s show ?case
    by (simp add: run_Cons responseErrors_Cons[of ev events] del: step.simps)
qed

lemma getCsrfToken_other:
  "authTokenCache (fst (getCsrfToken m documentCookie w)) = authTokenCache w \<and>
   fetching (fst (getCsrfToken m documentCookie w)) = fetching w \<and>
   filter (\<lambda>x. \<exists>h. x = Fetch h) (trace (fst (getCsrfToken m documentCookie w))) =
     filter (\<lambda>x. \<exists>h. x = Fetch h) (trace w)"
  by (cases m)
    (auto simp: getCsrfToken_def utils_getCsrfToken_def axios_getCsrfToken_def emit_def Let_def
      split: sum.splits)

lemma step_cached:
  assumes "authTokenCache w = Some T" and "T \<noteq> []" and "fetching w = []"
  shows "authTokenCache (step ev w) = Some T \<and> fetching (step ev w) = [] \<and>
         filter (\<lambda>x. \<exists>h. x = Fetch h) (trace (step ev w)) =
           filter (\<lambda>x. \<exists>h. x = Fetch h) (trace w)"
proof (cases ev)
  case (ResponseError error)
  with assms show ?thesis
    by (simp add: onRejected_def emit_def)
next
  case (RefreshSettled k outcome)
  with assms show ?thesis
    using afterRefresh_fetching[of "suspended w ! k" outcome
        "w\<lparr>suspended := take k (suspended w) @ drop (Suc k) (suspended w)\<rparr>"]
      afterRefresh_caches[of "suspended w ! k" outcome
        "w\<lparr>suspended := take k (suspended w) @ drop (Suc k) (suspended w)\<rparr>"]
    by simp
next
  case (CallGetCsrfToken m documentCookie)
  with assms getCsrfToken_other[of m documentCookie w] show ?thesis
    by simp
next
  case (CallGetAuthToken d documentCookie)
  with assms show ?thesis
    by (simp add: callGetAuthToken_def truthy_def)
next
  case (TokenCall k x)
  with assms show ?thesis by simp
next
  case InterceptorCatch
  with assms show ?thesis by (simp add: emit_def)
qed

lemma run_cached:
  assumes "authTokenCache w = Some T" and "T \<noteq> []" and "fetching w = []"
  shows "authTokenCache (run events w) = Some T \<and> fetching (run events w) = [] \<and>
         filter (\<lambda>x. \<exists>h. x = Fetch h) (trace (run events w)) =
           filter (\<lambda>x. \<exists>h. x = Fetch h) (trace w)"
  using assms
proof (induction events arbitrary: w)
  case Nil
  then show ?case by (simp add: run_Nil)
next
  case (Cons ev events)
  note s = step_cached[OF Cons.prems, of ev]
  from s have a: "authTokenCache (step ev w) = Some T" and b: "fetching (step ev w) = []"
    by simp_all
  from Cons.IH[OF a Cons.prems(2) b] s show ?case
    by (simp add: run_Cons del: step.simps)
qed

section \<open>Single flight\<close>

text \<open>
  \<open>N\<close> requests that meet a 498 one after the other, none of them retried, starting with
  no refresh in flight: the first starts the one refresh call and the others are queued
  behind it. In every state the event loop reaches from the initial one, at most one
  handler is suspended at the refresh call, and \<open>isRefreshing\<close> says whether one is. The
  queue is non-empty only while \<open>isRefreshing\<close> for as long as every refresh call that
  settles ends in one of the branches that call \<open>processQueue\<close>.
\<close>

lemma responseErrors_map: "responseErrors (map ResponseError es) = es"
  by (induction es) simp_all

lemma concurrent_expired_one_refresh:
  assumes "\<not> isRefreshing w" and "suspended w = []" and "refreshable e"
    and "\<forall>x\<in>set es. refreshable x"
  shows "isRefreshing (run (map ResponseError (e # es)) w) \<and>
         suspended (run (map ResponseError (e # es)) w) =
           [e\<lparr>config := (config e)\<lparr>retry := True\<rparr>\<rparr>] \<and>
         failedQueue (run (map ResponseError (e # es)) w) =
           failedQueue w @ map (\<lambda>x. rid (config x)) es \<and>
         count_list (trace (run (map ResponseError (e # es)) w)) RefreshCall =
           Suc (count_list (trace w) RefreshCall)"
proof -
  let ?v = "step (ResponseError e) w"
  from assms(1-3) have s: "?v =
      w\<lparr>isRefreshing := True, suspended := [e\<lparr>config := (config e)\<lparr>retry := True\<rparr>\<rparr>],
        trace := trace w @ [RefreshCall]\<rparr>"
    by (simp add: onRejected_def emit_def)
  have 1: "isRefreshing ?v" and 2: "suspended ?v = [e\<lparr>config := (config e)\<lparr>retry := True\<rparr>\<rparr>]"
    unfolding s by simp_all
  have 3: "\<forall>ev\<in>set (map ResponseError es). \<not> refreshSettles ev"
    by simp
  from assms(4) have f: "filter refreshable es = es"
    by simp
  have v: "failedQueue ?v = failedQueue w"
    "count_list (trace ?v) RefreshCall = Suc (count_list (trace w) RefreshCall)"
    unfolding s by simp_all
  from run_while_refreshing[OF 1 2 3] show ?thesis
    by (simp add: run_Cons responseErrors_map f v del: step.simps)
qed

lemma step_single_flight:
  assumes "isRefreshing w = (suspended w \<noteq> [])" and "length (suspended w) \<le> 1"
  shows "isRefreshing (step ev w) = (suspended (step ev w) \<noteq> []) \<and>
         length (suspended (step ev w)) \<le> 1"
  using step_credential[of ev w]
proof (elim disjE exE)
  fix error assume "ev = ResponseError error"
  with assms show ?thesis
    by (auto simp: onRejected_def emit_def)
next
  fix k outcome assume e: "ev = RefreshSettled k outcome"
  show ?thesis
  proof (cases "k < length (suspended w)")
    case False
    with e assms show ?thesis by simp
  next
    case True
    with assms(2) have t: "take k (suspended w) @ drop (Suc k) (suspended w) = []"
      by (cases "suspended w") auto
    have s: "suspended (step ev w) = []"
      by (simp add: e True afterRefresh_suspended t)
    have "\<not> isRefreshing (step ev w)"
      by (simp add: e True afterRefresh_flag)
    with s show ?thesis
      by simp
  qed
next
  assume "credentialStep w (step ev w)"
  from credentialStep_queue[OF this] assms show ?thesis
    by simp
qed

lemma single_flight_invariant:
  "isRefreshing (run events init) = (suspended (run events init) \<noteq> []) \<and>
   length (suspended (run events init)) \<le> 1"
proof (induction events rule: rev_induct)
  case Nil
  then show ?case by (simp add: run_Nil init_def)
next
  case (snoc ev events)
  then show ?case
    using step_single_flight[of "run events init" ev]
    by (simp add: run_append run_Cons run_Nil del: step.simps)
qed

lemma afterRefresh_drained:
  "drains (RefreshSettled k outcome) \<Longrightarrow> failedQueue (fst (afterRefresh error outcome w)) = []"
  using afterRefresh_cases[of error outcome w]
  by (auto simp: catchBlock_eq afterRefresh_token)

lemma step_queue_invariant:
  assumes "failedQueue w \<noteq> [] \<longrightarrow> isRefreshing w"
    and "drains ev \<or> \<not> refreshSettles ev \<or> failedQueue w = []"
  shows "failedQueue (step ev w) \<noteq> [] \<longrightarrow> isRefreshing (step ev w)"
  using step_credential[of ev w]
proof (elim disjE exE)
  fix error assume "ev = ResponseError error"
  with assms show ?thesis
    by (auto simp: onRejected_def emit_def)
next
  fix k outcome assume e: "ev = RefreshSettled k outcome"
  show ?thesis
  proof (cases "k < length (suspended w)")
    case False
    with e assms show ?thesis by simp
  next
    case True
    from assms(2) e have "drains (RefreshSettled k outcome) \<or> failedQueue w = []"
      by auto
    then show ?thesis
    proof
      assume "drains (RefreshSettled k outcome)"
      with True e show ?thesis
        by (simp add: afterRefresh_drained)
    next
      assume q: "failedQueue w = []"
      have "failedQueue (fst (afterRefresh error outcome v)) = []" if "failedQueue v = []"
        for error v
        using afterRefresh_cases[of error outcome v] that
        by (auto simp: catchBlock_eq afterRefresh_tokenless afterRefresh_token)
      with q True e show ?thesis
        by simp
    qed
  qed
next
  assume "credentialStep w (step ev w)"
  from credentialStep_queue[OF this] assms show ?thesis
    by simp
qed

lemma queue_invariant_when_every_refresh_drains:
  assumes "\<forall>ev\<in>set events. drains ev \<or> \<not> refreshSettles ev"
  shows "failedQueue (run events init) \<noteq> [] \<longrightarrow> isRefreshing (run events init)"
  using assms
proof (induction events rule: rev_induct)
  case Nil
  then show ?case by (simp add: run_Nil init_def)
next
  case (snoc ev events)
  from snoc.prems have a: "\<forall>ev\<in>set events. drains ev \<or> \<not> refreshSettles ev"
    and b: "drains ev \<or> \<not> refreshSettles ev"
    by simp_all
  from step_queue_invariant[OF snoc.IH[OF a], of ev] b show ?case
    by (auto simp: run_append run_Cons run_Nil simp del: step.simps)
qed

text \<open>
  C1, as amended. Take a state that the event loop reaches with a refresh in flight
  (\<open>isRefreshing\<close>); the one suspended handler is that of the request that started it.
  Whatever events follow before that refresh call settles, no second refresh call is made
  and no promise is settled; the requests of the refreshable errors (an axios error with
  status 498 whose request is not marked retried) are queued in arrival order and left
  pending, and any other error, a 498 of an already retried request among them, is
  rejected at once. When the refresh call then resolves with a token, every queued promise
  is resolved with it, in queue order; when it rejects, every queued promise is rejected
  with the error of the request that started the refresh.
\<close>

theorem single_flight_while_refreshing:
  assumes "isRefreshing (run past init)"
    and "\<forall>ev\<in>set events. \<not> refreshSettles ev"
  shows "count_list (trace (run (past @ events) init)) RefreshCall =
           count_list (trace (run past init)) RefreshCall \<and>
         settled (trace (run (past @ events) init)) = settled (trace (run past init)) \<and>
         isRefreshing (run (past @ events) init) \<and>
         failedQueue (run (past @ events) init) =
           failedQueue (run past init)
           @ map (\<lambda>e. rid (config e)) (filter refreshable (responseErrors events)) \<and>
         snd (onRejected error (run (past @ events) init)) =
           (if refreshable error then Queued else Rejected error) \<and>
         (t \<noteq> [] \<longrightarrow>
            trace (step (RefreshSettled 0 (PostResolved (Data (Some t)))) (run (past @ events) init)) =
              trace (run (past @ events) init)
              @ map (\<lambda>prom. Resolve prom t) (failedQueue (run (past @ events) init))
              @ [Replay (setHeader ''Authorization'' (bearer t)
                   (config (hd (suspended (run past init)))))]) \<and>
         trace (step (RefreshSettled 0 PostRejected) (run (past @ events) init)) =
           trace (run (past @ events) init)
           @ map (\<lambda>prom. Reject prom (hd (suspended (run past init))))
               (failedQueue (run (past @ events) init))
           @ [LogError ''Token refresh failed:'', Redirect ''/login'']"
proof -
  let ?w = "run past init"
  let ?v = "run (past @ events) init"
  from single_flight_invariant[of past] assms(1)
  obtain trigger where g: "suspended ?w = [trigger]"
    by (cases "suspended ?w") auto
  have v: "?v = run events ?w"
    by (simp add: run_append)
  note r = run_while_refreshing[OF assms(1) g assms(2), folded v]
  from r have i: "isRefreshing ?v" and s: "suspended ?v = [trigger]"
    by simp_all
  have 1: "snd (onRejected error ?v) = (if refreshable error then Queued else Rejected error)"
    using i by (simp add: onRejected_refreshing)
  have 2: "trace (step (RefreshSettled 0 (PostResolved (Data (Some t)))) ?v) =
              trace ?v @ map (\<lambda>prom. Resolve prom t) (failedQueue ?v)
              @ [Replay (setHeader ''Authorization'' (bearer t) (config (hd (suspended ?w))))]"
    if "t \<noteq> []"
    using that s g by (simp add: afterRefresh_token)
  have 3: "trace (step (RefreshSettled 0 PostRejected) ?v) =
           trace ?v @ map (\<lambda>prom. Reject prom (hd (suspended ?w))) (failedQueue ?v)
           @ [LogError ''Token refresh failed:'', Redirect ''/login'']"
    using s g by (simp add: afterRefresh_def catchBlock_eq)
  from r 1 2 3 show ?thesis
    by blast
qed

theorem single_flight_while_refreshing_witness:
  "isRefreshing (run [ResponseError (expired (req 1))] init) \<and>
   \<not> refreshSettles (ResponseError (expired (req 2))) \<and>
   \<not> refreshSettles (CallGetCsrfToken AxiosInstance ''XSRF-TOKEN=abc123'') \<and>
   \<not> refreshSettles (ResponseError (expired ((req 4)\<lparr>retry := True\<rparr>))) \<and>
   \<not> refreshSettles (ResponseError (expired (req 3))) \<and>
   failedQueue
     (run ([ResponseError (expired (req 1))]
           @ [ResponseError (expired (req 2)), CallGetCsrfToken AxiosInstance ''XSRF-TOKEN=abc123'',
              ResponseError (expired ((req 4)\<lparr>retry := True\<rparr>)), ResponseError (expired (req 3))])
        init) = [2, 3] \<and>
   count_list
     (trace
       (run ([ResponseError (expired (req 1))]
             @ [ResponseError (expired (req 2)), CallGetCsrfToken AxiosInstance ''XSRF-TOKEN=abc123'',
                ResponseError (expired ((req 4)\<lparr>retry := True\<rparr>)), ResponseError (expired (req 3))])
          init)) RefreshCall = 1 \<and>
   snd (onRejected (expired (req 5))
     (run ([ResponseError (expired (req 1))]
           @ [ResponseError (expired (req 2)), CallGetCsrfToken AxiosInstance ''XSRF-TOKEN=abc123'',
              ResponseError (expired ((req 4)\<lparr>retry := True\<rparr>)), ResponseError (expired (req 3))])
        init)) = Queued \<and>
   settled (trace
     (step (RefreshSettled 0 (PostResolved (Data (Some ''T2''))))
       (run ([ResponseError (expired (req 1))]
             @ [ResponseError (expired (req 2)), CallGetCsrfToken AxiosInstance ''XSRF-TOKEN=abc123'',
                ResponseError (expired ((req 4)\<lparr>retry := True\<rparr>)), ResponseError (expired (req 3))])
          init))) = [2, 3] \<and>
   settled (trace
     (step (RefreshSettled 0 PostRejected)
       (run ([ResponseError (expired (req 1))]
             @ [ResponseError (expired (req 2)), CallGetCsrfToken AxiosInstance ''XSRF-TOKEN=abc123'',
                ResponseError (expired ((req 4)\<lparr>retry := True\<rparr>)), ResponseError (expired (req 3))])
          init))) = [2, 3]"
proof -
  let ?past = "[ResponseError (expired (req 1))]"
  let ?events = "[ResponseError (expired (req 2)), CallGetCsrfToken AxiosInstance ''XSRF-TOKEN=abc123'',
           ResponseError (expired ((req 4)\<lparr>retry := True\<rparr>)), ResponseError (expired (req 3))]"
  let ?w = "run ?past init"
  let ?v = "run (?past @ ?events) init"
  have h1: "isRefreshing ?w"
    by code_simp
  have n: "\<not> refreshSettles (ResponseError (expired (req 2)))"
    "\<not> refreshSettles (CallGetCsrfToken AxiosInstance ''XSRF-TOKEN=abc123'')"
    "\<not> refreshSettles (ResponseError (expired ((req 4)\<lparr>retry := True\<rparr>)))"
    "\<not> refreshSettles (ResponseError (expired (req 3)))"
    by simp_all
  then have h2: "\<forall>ev\<in>set ?events. \<not> refreshSettles ev"
    by simp
  have q: "failedQueue ?w = []" "count_list (trace ?w) RefreshCall = 1" "settled (trace ?w) = []"
    by code_simp+
  have f: "map (\<lambda>e. rid (config e)) (filter refreshable (responseErrors ?events)) = [2, 3]"
    "refreshable (expired (req 5))"
    by code_simp+
  note t = single_flight_while_refreshing[OF h1 h2, of "expired (req 5)" "''T2''"]
  have a: "failedQueue ?v = [2, 3]"
    "count_list (trace ?v) RefreshCall = 1"
    "snd (onRejected (expired (req 5)) ?v) = Queued"
    "settled (trace ?v) = []"
    using t q f by simp_all
  have s: "settled (map (\<lambda>prom. Resolve prom x) ps) = ps"
    "settled (map (\<lambda>prom. Reject prom e) ps) = ps" for x e ps
    by (induction ps) simp_all
  have b: "settled (trace (step (RefreshSettled 0 (PostResolved (Data (Some ''T2'')))) ?v)) = [2, 3]"
  proof -
    from t have "trace (step (RefreshSettled 0 (PostResolved (Data (Some ''T2'')))) ?v) =
      trace ?v @ map (\<lambda>prom. Resolve prom ''T2'') (failedQueue ?v)
      @ [Replay (setHeader ''Authorization'' (bearer ''T2'') (config (hd (suspended ?w))))]"
      by blast
    then show ?thesis
      by (simp only: settled_append a s) simp
  qed
  have c: "settled (trace (step (RefreshSettled 0 PostRejected) ?v)) = [2, 3]"
  proof -
    from t have "trace (step (RefreshSettled 0 PostRejected) ?v) =
      trace ?v @ map (\<lambda>prom. Reject prom (hd (suspended ?w))) (failedQueue ?v)
      @ [LogError ''Token refresh failed:'', Redirect ''/login'']"
      by blast
    then show ?thesis
      by (simp only: settled_append a s) simp
  qed
  from h1 n a b c show ?thesis
    by blast
qed

text \<open>
  C1 as it is stated fails twice. A request that is already marked retried is not
  queued: request 1 meets a 498, is refreshed and replayed; request 2 then starts a
  second refresh, and while that one is in flight the replay of request 1 meets a 498
  again and is rejected. And a queued request is not settled when the refresh resolves:
  request 2 is queued behind the refresh of request 1, the refresh endpoint answers
  without a token, and request 2 is still in the queue, unsettled, with the flag reset.
\<close>

theorem single_flight_as_stated_fails:
  "isRefreshing
     (run [ResponseError (expired (req 1)), RefreshSettled 0 (PostResolved (Data (Some ''T2''))),
           ResponseError (expired (req 2))] init) \<and>
   status (expired ((req 1)\<lparr>retry := True\<rparr>)) = Some 498 \<and>
   onRejected (expired ((req 1)\<lparr>retry := True\<rparr>))
     (run [ResponseError (expired (req 1)), RefreshSettled 0 (PostResolved (Data (Some ''T2''))),
           ResponseError (expired (req 2))] init) =
     (run [ResponseError (expired (req 1)), RefreshSettled 0 (PostResolved (Data (Some ''T2''))),
           ResponseError (expired (req 2))] init,
      Rejected (expired ((req 1)\<lparr>retry := True\<rparr>))) \<and>
   isRefreshing (run [ResponseError (expired (req 1))] init) \<and>
   status (expired (req 2)) = Some 498 \<and>
   run [ResponseError (expired (req 1)), ResponseError (expired (req 2)),
        RefreshSettled 0 (PostResolved (Data None))] init =
     init\<lparr>failedQueue := [2], trace := [RefreshCall]\<rparr>"
  by code_simp

section \<open>Facts about the auth token cache\<close>

text \<open>
  C5, as amended. A call that finds a non-empty token in the cache returns it at once and
  leaves the whole state, the trace of effects included, as it was: no cookie is read,
  nothing is fetched, and the call is never suspended. So once the only call in flight
  has fetched a non-empty token \<open>T\<close> and written it to the cache, whatever events follow,
  the cache holds \<open>T\<close>, every call returns \<open>T\<close> at once, and the token endpoint is not
  fetched again; the same holds from any state whose cache holds a non-empty \<open>T\<close> with no
  call in flight.
\<close>

theorem getAuthToken_fast_path:
  "(truthy (authTokenCache w) \<longrightarrow>
      callGetAuthToken d c w = (w, Done (Inr (authTokenCache w))) \<and>
      getAuthToken d c net w = (w, Inr (authTokenCache w))) \<and>
   (fetching w = [AtJson d' csrf a (JsonObject (Some T))] \<and> T \<noteq> [] \<longrightarrow>
      resume JsonSettled (AtJson d' csrf a (JsonObject (Some T))) w =
        (w\<lparr>authTokenCache := Some T\<rparr>, Done (Inr (Some T))) \<and>
      authTokenCache (run (TokenCall 0 JsonSettled # events) w) = Some T \<and>
      callGetAuthToken d c (run (TokenCall 0 JsonSettled # events) w) =
        (run (TokenCall 0 JsonSettled # events) w, Done (Inr (Some T))) \<and>
      filter (\<lambda>x. \<exists>h. x = Fetch h) (trace (run (TokenCall 0 JsonSettled # events) w)) =
        filter (\<lambda>x. \<exists>h. x = Fetch h) (trace w)) \<and>
   (authTokenCache w = Some T \<and> T \<noteq> [] \<and> fetching w = [] \<longrightarrow>
      authTokenCache (run events w) = Some T \<and>
      fetching (run events w) = [] \<and>
      callGetAuthToken d c (run events w) = (run events w, Done (Inr (Some T))) \<and>
      filter (\<lambda>x. \<exists>h. x = Fetch h) (trace (run events w)) =
        filter (\<lambda>x. \<exists>h. x = Fetch h) (trace w))"
proof (intro conjI impI)
  assume t: "truthy (authTokenCache w)"
  then show "callGetAuthToken d c w = (w, Done (Inr (authTokenCache w)))"
    by (simp add: callGetAuthToken_def)
  from t show "getAuthToken d c net w = (w, Inr (authTokenCache w))"
    by (rule getAuthToken_hit)
next
  assume a: "fetching w = [AtJson d' csrf a (JsonObject (Some T))] \<and> T \<noteq> []"
  let ?v = "step (TokenCall 0 JsonSettled) w"
  from a have v: "?v = w\<lparr>authTokenCache := Some T, fetching := []\<rparr>"
    by simp
  then have i: "authTokenCache ?v = Some T" "fetching ?v = []" "trace ?v = trace w"
    by simp_all
  from a have n: "T \<noteq> []" by simp
  note r = run_cached[OF i(1) n i(2), of events]
  show "resume JsonSettled (AtJson d' csrf a (JsonObject (Some T))) w =
        (w\<lparr>authTokenCache := Some T\<rparr>, Done (Inr (Some T)))"
    by simp
  from r show "authTokenCache (run (TokenCall 0 JsonSettled # events) w) = Some T"
    by (simp add: run_Cons del: step.simps)
  from r n show "callGetAuthToken d c (run (TokenCall 0 JsonSettled # events) w) =
        (run (TokenCall 0 JsonSettled # events) w, Done (Inr (Some T)))"
    by (simp add: run_Cons callGetAuthToken_def truthy_def del: step.simps)
  from r i(3) show "filter (\<lambda>x. \<exists>h. x = Fetch h) (trace (run (TokenCall 0 JsonSettled # events) w)) =
        filter (\<lambda>x. \<exists>h. x = Fetch h) (trace w)"
    by (simp add: run_Cons del: step.simps)
next
  assume a: "authTokenCache w = Some T \<and> T \<noteq> [] \<and> fetching w = []"
  then have 1: "authTokenCache w = Some T" and 2: "T \<noteq> []" and 3: "fetching w = []"
    by simp_all
  note r = run_cached[OF 1 2 3, of events]
  from r show "authTokenCache (run events w) = Some T" and "fetching (run events w) = []"
    and "filter (\<lambda>x. \<exists>h. x = Fetch h) (trace (run events w)) =
        filter (\<lambda>x. \<exists>h. x = Fetch h) (trace w)"
    by simp_all
  from r 2 show "callGetAuthToken d c (run events w) = (run events w, Done (Inr (Some T)))"
    by (simp add: callGetAuthToken_def truthy_def)
qed

theorem getAuthToken_fast_path_witness:
  "truthy (authTokenCache (init\<lparr>authTokenCache := Some ''T1''\<rparr>)) \<and>
   callGetAuthToken 1000 [] (init\<lparr>authTokenCache := Some ''T1''\<rparr>) =
     (init\<lparr>authTokenCache := Some ''T1''\<rparr>, Done (Inr (Some ''T1''))) \<and>
   fetching
     (run [CallGetAuthToken 1000 ''XSRF-TOKEN=abc123'', TokenCall 0 CsrfAwaited,
           TokenCall 0 (FetchSettled (HttpResponse True (JsonObject (Some ''T1''))))] init) =
     [AtJson 1000 (Some ''abc123'') 0 (JsonObject (Some ''T1''))] \<and>
   authTokenCache
     (run [TokenCall 0 JsonSettled, CallGetAuthToken 5 [], TokenCall 0 TimerFired,
           ResponseError (expired (req 1)), CallGetAuthToken 1000 []]
        (run [CallGetAuthToken 1000 ''XSRF-TOKEN=abc123'', TokenCall 0 CsrfAwaited,
              TokenCall 0 (FetchSettled (HttpResponse True (JsonObject (Some ''T1''))))] init)) =
     Some ''T1'' \<and>
   snd (callGetAuthToken 7 []
     (run [TokenCall 0 JsonSettled, CallGetAuthToken 5 [], TokenCall 0 TimerFired,
           ResponseError (expired (req 1)), CallGetAuthToken 1000 []]
        (run [CallGetAuthToken 1000 ''XSRF-TOKEN=abc123'', TokenCall 0 CsrfAwaited,
              TokenCall 0 (FetchSettled (HttpResponse True (JsonObject (Some ''T1''))))] init))) =
     Done (Inr (Some ''T1'')) \<and>
   filter (\<lambda>x. \<exists>h. x = Fetch h) (trace
     (run [TokenCall 0 JsonSettled, CallGetAuthToken 5 [], TokenCall 0 TimerFired,
           ResponseError (expired (req 1)), CallGetAuthToken 1000 []]
        (run [CallGetAuthToken 1000 ''XSRF-TOKEN=abc123'', TokenCall 0 CsrfAwaited,
              TokenCall 0 (FetchSettled (HttpResponse True (JsonObject (Some ''T1''))))] init))) =
     [Fetch [(''X-CSRF-Token'', ''abc123'')]] \<and>
   fetching (run [CallGetAuthToken 5 [], ResponseError (expired (req 1))]
     (init\<lparr>authTokenCache := Some ''T1''\<rparr>)) = []"
proof -
  let ?w1 = "init\<lparr>authTokenCache := Some ''T1''\<rparr>"
  let ?w2 = "run [CallGetAuthToken 1000 ''XSRF-TOKEN=abc123'', TokenCall 0 CsrfAwaited,
           TokenCall 0 (FetchSettled (HttpResponse True (JsonObject (Some ''T1''))))] init"
  let ?events = "[CallGetAuthToken 5 [], TokenCall 0 TimerFired,
           ResponseError (expired (req 1)), CallGetAuthToken 1000 []]"
  have h1: "truthy (authTokenCache ?w1)"
    by (simp add: truthy_def)
  have tr: "trace ?w2 = [ReadCookie AuthTokenUtils, Log ''Extracted CSRF token from cookies:'',
      Fetch [(''X-CSRF-Token'', ''abc123'')]]"
    by code_simp
  have h2: "fetching ?w2 = [AtJson 1000 (Some ''abc123'') 0 (JsonObject (Some ''T1''))]"
    "filter (\<lambda>x. \<exists>h. x = Fetch h) (trace ?w2) = [Fetch [(''X-CSRF-Token'', ''abc123'')]]"
    by (code_simp, simp add: tr)
  have h3: "''T1'' \<noteq> []" "authTokenCache ?w1 = Some ''T1''" "fetching ?w1 = []"
    by (simp_all add: init_def)
  from getAuthToken_fast_path[of ?w1 1000 "[]"] h1
  have a: "callGetAuthToken 1000 [] ?w1 = (?w1, Done (Inr (Some ''T1'')))"
    by simp
  note t = getAuthToken_fast_path[of ?w2 7 "[]" _ 1000 "Some ''abc123''" 0 "''T1''" ?events]
  from t h2 h3(1)
  have b: "authTokenCache (run (TokenCall 0 JsonSettled # ?events) ?w2) = Some ''T1''"
    "callGetAuthToken 7 [] (run (TokenCall 0 JsonSettled # ?events) ?w2) =
      (run (TokenCall 0 JsonSettled # ?events) ?w2, Done (Inr (Some ''T1'')))"
    "filter (\<lambda>x. \<exists>h. x = Fetch h) (trace (run (TokenCall 0 JsonSettled # ?events) ?w2)) =
      [Fetch [(''X-CSRF-Token'', ''abc123'')]]"
    by (blast, blast, metis)
  from getAuthToken_fast_path[of ?w1 _ _ _ _ _ _ "''T1''"
      "[CallGetAuthToken 5 [], ResponseError (expired (req 1))]"] h3
  have c: "fetching (run [CallGetAuthToken 5 [], ResponseError (expired (req 1))] ?w1) = []"
    by blast
  from h1 h2(1) a b c show ?thesis
    by simp
qed

text \<open>
  C5 as it is stated fails when calls overlap, and for an empty token. Two calls start
  while the cache is empty and both fetch; the first receives \<open>T1\<close>, writes it and returns
  it, and a call made now returns \<open>T1\<close>; then the second receives \<open>TX\<close> and writes it over
  \<open>T1\<close>, and a call made after that returns \<open>TX\<close>. And after a fetch that returned the
  empty string as the token, the next call fetches again.
\<close>

theorem later_call_returns_another_token:
  "snd (callGetAuthToken 1000 ''XSRF-TOKEN=abc123''
     (run [CallGetAuthToken 1000 ''XSRF-TOKEN=abc123'', CallGetAuthToken 1000 ''XSRF-TOKEN=abc123'',
           TokenCall 0 CsrfAwaited, TokenCall 1 CsrfAwaited,
           TokenCall 0 (FetchSettled (HttpResponse True (JsonObject (Some ''T1'')))),
           TokenCall 1 (FetchSettled (HttpResponse True (JsonObject (Some ''TX'')))),
           TokenCall 0 JsonSettled] init)) = Done (Inr (Some ''T1'')) \<and>
   snd (callGetAuthToken 1000 ''XSRF-TOKEN=abc123''
     (run [CallGetAuthToken 1000 ''XSRF-TOKEN=abc123'', CallGetAuthToken 1000 ''XSRF-TOKEN=abc123'',
           TokenCall 0 CsrfAwaited, TokenCall 1 CsrfAwaited,
           TokenCall 0 (FetchSettled (HttpResponse True (JsonObject (Some ''T1'')))),
           TokenCall 1 (FetchSettled (HttpResponse True (JsonObject (Some ''TX'')))),
           TokenCall 0 JsonSettled, TokenCall 0 JsonSettled] init)) = Done (Inr (Some ''TX'')) \<and>
   trace
     (run [CallGetAuthToken 1000 [], TokenCall 0 CsrfAwaited,
           TokenCall 0 (FetchSettled (HttpResponse True (JsonObject (Some [])))),
           TokenCall 0 JsonSettled,
           CallGetAuthToken 1000 [], TokenCall 0 CsrfAwaited] init) =
     [ReadCookie AuthTokenUtils, LogError ''CSRF token not found in cookies'', Fetch [],
      ReadCookie AuthTokenUtils, LogError ''CSRF token not found in cookies'', Fetch []]"
  by code_simp

section \<open>Facts about the two CSRF caches\<close>

text \<open>
  Each of the two \<open>getCsrfToken\<close> works on the cache of its own module. With a token in
  that cache it returns it, and from then on no event changes that cache or reads the
  cookie for it again. With an empty cache it reads the cookie: a cookie \<open>XSRF-TOKEN\<close>
  whose decoded value is not empty is cached and returned; without such a cookie the call
  logs an error and returns \<open>undefined\<close>, and throws nothing.
\<close>

lemma getCsrfToken_per_module:
  "(truthy (csrfTokenCache m w) \<longrightarrow>
      getCsrfToken m documentCookie w =
        (emit (Log ''Returning cached CSRF token:'') w, Inr (csrfTokenCache m w)) \<and>
      csrfTokenCache m (run events w) = csrfTokenCache m w \<and>
      count_list (trace (run events w)) (ReadCookie m) = count_list (trace w) (ReadCookie m)) \<and>
   (\<not> truthy (csrfTokenCache m w) \<and> getCookieByName documentCookie ''XSRF-TOKEN'' = Inr (Some v)
      \<and> v \<noteq> [] \<longrightarrow>
      snd (getCsrfToken m documentCookie w) = Inr (Some v) \<and>
      csrfTokenCache m (fst (getCsrfToken m documentCookie w)) = Some v \<and>
      trace (fst (getCsrfToken m documentCookie w)) =
        trace w @ [ReadCookie m, Log ''Extracted CSRF token from cookies:'']) \<and>
   (\<not> truthy (csrfTokenCache m w) \<and> getCookieByName documentCookie ''XSRF-TOKEN'' = Inr None \<longrightarrow>
      getCsrfToken m documentCookie w =
        (w\<lparr>trace := trace w @ [ReadCookie m, LogError ''CSRF token not found in cookies'']\<rparr>,
         Inr None))"
proof (intro conjI impI)
  assume t: "truthy (csrfTokenCache m w)"
  then show "getCsrfToken m documentCookie w =
        (emit (Log ''Returning cached CSRF token:'') w, Inr (csrfTokenCache m w))"
    by (cases m)
      (simp_all add: getCsrfToken_def utils_getCsrfToken_def axios_getCsrfToken_def
        csrfTokenCache_def)
  from run_caches[OF t] show "csrfTokenCache m (run events w) = csrfTokenCache m w"
    and "count_list (trace (run events w)) (ReadCookie m) = count_list (trace w) (ReadCookie m)"
    by simp_all
next
  assume a: "\<not> truthy (csrfTokenCache m w) \<and>
    getCookieByName documentCookie ''XSRF-TOKEN'' = Inr (Some v) \<and> v \<noteq> []"
  then have e: "getCsrfToken m documentCookie w =
    ((case m of AxiosInstance \<Rightarrow> w\<lparr>axios_csrfTokenCache := Some v,
         trace := trace w @ [ReadCookie m, Log ''Extracted CSRF token from cookies:'']\<rparr>
      | AuthTokenUtils \<Rightarrow> w\<lparr>utils_csrfTokenCache := Some v,
         trace := trace w @ [ReadCookie m, Log ''Extracted CSRF token from cookies:'']\<rparr>),
     Inr (Some v))"
    by (cases m)
      (simp_all add: getCsrfToken_def utils_getCsrfToken_def axios_getCsrfToken_def
        csrfTokenCache_def truthy_def emit_def)
  show "snd (getCsrfToken m documentCookie w) = Inr (Some v)"
    by (simp add: e)
  show "csrfTokenCache m (fst (getCsrfToken m documentCookie w)) = Some v"
    using e by (cases m) (simp_all add: csrfTokenCache_def)
  show "trace (fst (getCsrfToken m documentCookie w)) =
        trace w @ [ReadCookie m, Log ''Extracted CSRF token from cookies:'']"
    using e by (cases m) simp_all
next
  assume "\<not> truthy (csrfTokenCache m w) \<and> getCookieByName documentCookie ''XSRF-TOKEN'' = Inr None"
  then show "getCsrfToken m documentCookie w =
        (w\<lparr>trace := trace w @ [ReadCookie m, LogError ''CSRF token not found in cookies'']\<rparr>,
         Inr None)"
    by (cases m)
      (simp_all add: getCsrfToken_def utils_getCsrfToken_def axios_getCsrfToken_def
        csrfTokenCache_def truthy_def emit_def)
qed

text \<open>
  C7, at the input where the code departs from it. With the cookie present, the lookup of
  the axios module (the first line of the request interceptor) is followed by the lookup
  of the token module (the one \<open>getAuthToken\<close> makes): the two modules do not share a
  cache, so the cookie is read and parsed a second time and the second lookup is no cache
  hit.
\<close>

theorem cookie_parsed_by_each_module:
  "trace (run [CallGetCsrfToken AxiosInstance ''XSRF-TOKEN=abc123'',
               CallGetCsrfToken AuthTokenUtils ''XSRF-TOKEN=abc123''] init) =
     [ReadCookie AxiosInstance, Log ''Extracted CSRF token from cookies:'',
      ReadCookie AuthTokenUtils, Log ''Extracted CSRF token from cookies:'']"
  by code_simp

section \<open>Facts about the auth token cache and the refresh\<close>

text \<open>
  C6, as amended. The refresh coordinator does not write the auth token cache: neither
  part of the error handler changes \<open>authTokenCache\<close>, and no event other than those in
  which \<open>getAuthToken\<close> runs does. What the coordinator does with a new token \<open>t\<close> is to
  make \<open>Bearer t\<close> the default \<open>Authorization\<close> header and the header of the original
  request, which it replays.
\<close>

theorem refresh_keeps_authTokenCache:
  "authTokenCache (fst (onRejected error w)) = authTokenCache w \<and>
   authTokenCache (fst (afterRefresh error outcome w)) = authTokenCache w \<and>
   (\<not> callsGetAuthToken ev \<longrightarrow> authTokenCache (step ev w) = authTokenCache w) \<and>
   (t \<noteq> [] \<longrightarrow>
      defaultAuthorization (fst (afterRefresh error (PostResolved (Data (Some t))) w)) =
        Some (bearer t) \<and>
      snd (afterRefresh error (PostResolved (Data (Some t))) w) =
        Replayed (setHeader ''Authorization'' (bearer t) (config error)))"
proof (intro conjI impI)
  show "authTokenCache (fst (onRejected error w)) = authTokenCache w"
    using onRejected_caches[of error w] by simp
  show "authTokenCache (fst (afterRefresh error outcome w)) = authTokenCache w"
    using afterRefresh_caches[of error outcome w] by simp
  show "authTokenCache (step ev w) = authTokenCache w" if "\<not> callsGetAuthToken ev"
  proof (cases ev)
    case (ResponseError e)
    then show ?thesis using onRejected_caches[of e w] by simp
  next
    case (RefreshSettled k out)
    then show ?thesis
      using afterRefresh_caches[of "suspended w ! k" out
          "w\<lparr>suspended := take k (suspended w) @ drop (Suc k) (suspended w)\<rparr>"]
      by simp
  next
    case (CallGetCsrfToken m documentCookie)
    then show ?thesis by (simp add: getCsrfToken_authTokenCache)
  next
    case (CallGetAuthToken d documentCookie)
    with that show ?thesis by simp
  next
    case (TokenCall k x)
    with that show ?thesis by simp
  next
    case InterceptorCatch
    then show ?thesis by (simp add: emit_def)
  qed
  show "defaultAuthorization (fst (afterRefresh error (PostResolved (Data (Some t))) w)) =
        Some (bearer t)" if "t \<noteq> []"
    using that by (simp add: afterRefresh_token)
  show "snd (afterRefresh error (PostResolved (Data (Some t))) w) =
        Replayed (setHeader ''Authorization'' (bearer t) (config error))" if "t \<noteq> []"
    using that by (simp add: afterRefresh_token)
qed

theorem refresh_keeps_authTokenCache_witness:
  "\<not> callsGetAuthToken (RefreshSettled 0 (PostResolved (Data (Some ''T2'')))) \<and>
   authTokenCache
     (step (RefreshSettled 0 (PostResolved (Data (Some ''T2''))))
        (run [ResponseError (expired (req 1))] (init\<lparr>authTokenCache := Some ''T1''\<rparr>))) =
     Some ''T1'' \<and>
   defaultAuthorization
     (fst (afterRefresh (expired (req 1)) (PostResolved (Data (Some ''T2''))) init)) =
     Some ''Bearer T2''"
proof -
  let ?ev = "RefreshSettled 0 (PostResolved (Data (Some ''T2'')))"
  let ?w = "run [ResponseError (expired (req 1))] (init\<lparr>authTokenCache := Some ''T1''\<rparr>)"
  have h: "\<not> callsGetAuthToken ?ev"
    by simp
  have c: "authTokenCache ?w = Some ''T1''"
    by code_simp
  from refresh_keeps_authTokenCache[of _ ?w _ ?ev] h c
  have "authTokenCache (step ?ev ?w) = Some ''T1''"
    by simp
  moreover
  from refresh_keeps_authTokenCache[of "expired (req 1)" init _ _ "''T2''"]
  have "defaultAuthorization
     (fst (afterRefresh (expired (req 1)) (PostResolved (Data (Some ''T2''))) init)) =
     Some ''Bearer T2''"
    by (simp add: bearer_def)
  ultimately show ?thesis
    using h by simp
qed

text \<open>
  C6 as it is stated fails: after a refresh that returned \<open>T2\<close> and resolved the queued
  request 2, the cache still holds the \<open>T1\<close> that \<open>getAuthToken\<close> put there.
\<close>

theorem authTokenCache_stale_after_refresh:
  "run [CallGetAuthToken 1000 ''XSRF-TOKEN=abc123'', TokenCall 0 CsrfAwaited,
        TokenCall 0 (FetchSettled (HttpResponse True (JsonObject (Some ''T1'')))),
        TokenCall 0 JsonSettled,
        ResponseError (expired (req 1)), ResponseError (expired (req 2)),
        RefreshSettled 0 (PostResolved (Data (Some ''T2'')))] init =
     init\<lparr>utils_csrfTokenCache := Some ''abc123'', authTokenCache := Some ''T1'',
          defaultAuthorization := Some ''Bearer T2'',
          trace := [ReadCookie AuthTokenUtils, Log ''Extracted CSRF token from cookies:'',
                    Fetch [(''X-CSRF-Token'', ''abc123'')],
                    RefreshCall, Resolve 2 ''T2'',
                    Replay ((req 1)\<lparr>headers := [(''Authorization'', ''Bearer T2'')],
                                     retry := True\<rparr>)]\<rparr>"
  by code_simp

text \<open>
  C10, as amended. When the refresh call succeeds without a truthy token, the handler
  changes nothing but the flag, which it resets, and rejects with the error of the
  original request: the queue keeps its entries and none of them is settled. They stay
  unsettled and in the queue for as long as no later refresh call ends with a token, with
  the data \<open>null\<close> or with a rejection (the events that call \<open>processQueue\<close>).
\<close>

theorem tokenless_refresh:
  "(\<not> truthy token \<longrightarrow>
      afterRefresh error (PostResolved (Data token)) w = (w\<lparr>isRefreshing := False\<rparr>, Rejected error)) \<and>
   ((\<forall>ev\<in>set events. \<not> drains ev) \<longrightarrow>
      settled (trace (run events w)) = settled (trace w) \<and>
      prefix (failedQueue w) (failedQueue (run events w)))"
proof (intro conjI impI)
  show "afterRefresh error (PostResolved (Data token)) w = (w\<lparr>isRefreshing := False\<rparr>, Rejected error)"
    if "\<not> truthy token"
    using that by (rule afterRefresh_tokenless)
next
  assume "\<forall>ev\<in>set events. \<not> drains ev"
  then have "settled (trace (run events w)) = settled (trace w) \<and>
      prefix (failedQueue w) (failedQueue (run events w))"
  proof (induction events arbitrary: w)
    case Nil
    then show ?case by (simp add: run_Nil)
  next
    case (Cons ev events)
    from Cons.prems have "\<not> drains ev" and "\<forall>ev\<in>set events. \<not> drains ev"
      by simp_all
    from step_no_drain[OF this(1), of w] Cons.IH[OF this(2), of "step ev w"] show ?case
      by (auto simp: run_Cons intro: prefix_order.trans)
  qed
  then show "settled (trace (run events w)) = settled (trace w)"
    and "prefix (failedQueue w) (failedQueue (run events w))"
    by simp_all
qed

theorem tokenless_refresh_witness:
  "\<not> truthy None \<and>
   afterRefresh (expired ((req 1)\<lparr>retry := True\<rparr>)) (PostResolved (Data None))
     (run [ResponseError (expired (req 1)), ResponseError (expired (req 2))] init) =
     ((run [ResponseError (expired (req 1)), ResponseError (expired (req 2))] init)
        \<lparr>isRefreshing := False\<rparr>,
      Rejected (expired ((req 1)\<lparr>retry := True\<rparr>))) \<and>
   \<not> drains (RefreshSettled 0 (PostResolved (Data None))) \<and>
   \<not> drains (ResponseError (expired (req 3))) \<and>
   \<not> drains (RefreshSettled 0 (PostResolved (Data (Some [])))) \<and>
   settled (trace (run [RefreshSettled 0 (PostResolved (Data None)), ResponseError (expired (req 3)),
               RefreshSettled 0 (PostResolved (Data (Some [])))]
       (run [ResponseError (expired (req 1)), ResponseError (expired (req 2))] init))) = [] \<and>
   prefix [2] (failedQueue (run [RefreshSettled 0 (PostResolved (Data None)), ResponseError (expired (req 3)),
               RefreshSettled 0 (PostResolved (Data (Some [])))]
       (run [ResponseError (expired (req 1)), ResponseError (expired (req 2))] init)))"
proof -
  let ?events = "[RefreshSettled 0 (PostResolved (Data None)), ResponseError (expired (req 3)),
               RefreshSettled 0 (PostResolved (Data (Some [])))]"
  let ?w = "run [ResponseError (expired (req 1)), ResponseError (expired (req 2))] init"
  have h1: "\<not> truthy None"
    by (simp add: truthy_def)
  have h2: "\<forall>ev\<in>set ?events. \<not> drains ev"
    by (simp add: truthy_def)
  have w: "settled (trace ?w) = []" "failedQueue ?w = [2]"
    by code_simp+
  from tokenless_refresh[where token = None and error = "expired ((req 1)\<lparr>retry := True\<rparr>)"
      and w = ?w and events = ?events] h1 h2 w
  show ?thesis
    by simp
qed

section \<open>Facts about the session guard\<close>

lemma guardRun_Nil: "guardRun [] g = g"
  by (simp add: guardRun_def)

lemma guardRun_Cons: "guardRun (e # es) g = guardRun es (guardStep e g)"
  by (simp add: guardRun_def)

lemma guardStep_deactivated:
  assumes "\<not> isMounted g" and "phase g \<noteq> Inactive"
  shows "\<not> isMounted (guardStep e g) \<and> phase (guardStep e g) \<noteq> Inactive \<and>
         isAuthenticated (guardStep e g) = isAuthenticated g"
proof (cases e)
  case Activate
  with assms show ?thesis by simp
next
  case (TokenSettled r)
  with assms show ?thesis
    by (auto simp: act_def setIsAuthenticated_def Let_def split: prod.splits option.splits)
next
  case (CheckSettled ok)
  with assms show ?thesis
    by (auto simp: act_def setIsAuthenticated_def Let_def)
next
  case Deactivate
  with assms show ?thesis by simp
qed

lemma guardRun_deactivated:
  "\<not> isMounted g \<Longrightarrow> phase g \<noteq> Inactive \<Longrightarrow>
   isAuthenticated (guardRun events g) = isAuthenticated g"
proof (induction events arbitrary: g)
  case Nil
  then show ?case by (simp add: guardRun_Nil)
next
  case (Cons e events)
  from guardStep_deactivated[OF Cons.prems, of e] Cons.IH[of "guardStep e g"] show ?case
    by (simp add: guardRun_Cons)
qed


text \<open>
  C9. The guard renders \<open>Loading\<close> at first and on activation asks for the token. When
  the token arrives it calls the check endpoint with \<open>Authorization: Bearer\<close> that token.
  While mounted it renders the children once the check has succeeded, and renders
  nothing and navigates to \<open>/login\<close> when the token is missing or the check has failed.
  What it renders is one of exactly these three, decided by \<open>isAuthenticated\<close>. Once it
  has been deactivated, no event changes \<open>isAuthenticated\<close> any more.
\<close>

theorem sessionGuard_outcomes:
  "render initGuard = Loading \<and>
   guardStep Activate initGuard =
     initGuard\<lparr>isMounted := True, phase := AwaitToken, actions := [Get ''/auth/get-token'' []]\<rparr> \<and>
   (phase g = AwaitToken \<and> fetchToken r = (Some t, logged) \<and> t \<noteq> [] \<longrightarrow>
      guardStep (TokenSettled r) g =
        g\<lparr>phase := AwaitCheck,
          actions := actions g @ logged
                     @ [Get ''/account/check-auth'' [(''Authorization'', bearer t)]]\<rparr>) \<and>
   (phase g = AwaitToken \<and> isMounted g \<and> \<not> truthy (fst (fetchToken r)) \<longrightarrow>
      render (guardStep (TokenSettled r) g) = Nothing \<and>
      actions (guardStep (TokenSettled r) g) =
        actions g @ snd (fetchToken r)
        @ [GuardError ''Access denied: Token not found'', Navigate ''/login'']) \<and>
   (phase g = AwaitCheck \<and> isMounted g \<longrightarrow>
      render (guardStep (CheckSettled True) g) = Children \<and>
      actions (guardStep (CheckSettled True) g) = actions g \<and>
      render (guardStep (CheckSettled False) g) = Nothing \<and>
      actions (guardStep (CheckSettled False) g) =
        actions g @ [GuardError ''Access denied: You are not logged in'', Navigate ''/login'']) \<and>
   (\<not> isMounted g \<and> phase g \<noteq> Inactive \<longrightarrow>
      isAuthenticated (guardRun events g) = isAuthenticated g \<and>
      render (guardRun events g) = render g) \<and>
   (render g = Loading \<and> isAuthenticated g = None \<or>
    render g = Children \<and> isAuthenticated g = Some True \<or>
    render g = Nothing \<and> isAuthenticated g = Some False)"
proof (intro conjI impI)
  show "render initGuard = Loading"
    by (simp add: render_def initGuard_def)
  show "guardStep Activate initGuard =
     initGuard\<lparr>isMounted := True, phase := AwaitToken, actions := [Get ''/auth/get-token'' []]\<rparr>"
    by (simp add: initGuard_def act_def)
  show "guardStep (TokenSettled r) g =
        g\<lparr>phase := AwaitCheck,
          actions := actions g @ logged
                     @ [Get ''/account/check-auth'' [(''Authorization'', bearer t)]]\<rparr>"
    if "phase g = AwaitToken \<and> fetchToken r = (Some t, logged) \<and> t \<noteq> []"
    using that by (simp add: act_def truthy_def)
  show "render (guardStep (TokenSettled r) g) = Nothing"
    if "phase g = AwaitToken \<and> isMounted g \<and> \<not> truthy (fst (fetchToken r))"
    using that
    by (auto simp: act_def render_def setIsAuthenticated_def Let_def split: prod.splits)
  show "actions (guardStep (TokenSettled r) g) =
        actions g @ snd (fetchToken r)
        @ [GuardError ''Access denied: Token not found'', Navigate ''/login'']"
    if "phase g = AwaitToken \<and> isMounted g \<and> \<not> truthy (fst (fetchToken r))"
    using that
    by (auto simp: act_def setIsAuthenticated_def Let_def split: prod.splits)
  show "render (guardStep (CheckSettled True) g) = Children"
    and "actions (guardStep (CheckSettled True) g) = actions g"
    and "render (guardStep (CheckSettled False) g) = Nothing"
    and "actions (guardStep (CheckSettled False) g) =
        actions g @ [GuardError ''Access denied: You are not logged in'', Navigate ''/login'']"
    if "phase g = AwaitCheck \<and> isMounted g"
    using that by (simp_all add: act_def render_def setIsAuthenticated_def Let_def)
  show "isAuthenticated (guardRun events g) = isAuthenticated g"
    and "render (guardRun events g) = render g"
    if "\<not> isMounted g \<and> phase g \<noteq> Inactive"
    using that guardRun_deactivated[of g events] by (simp_all add: render_def)
  show "render g = Loading \<and> isAuthenticated g = None \<or>
    render g = Children \<and> isAuthenticated g = Some True \<or>
    render g = Nothing \<and> isAuthenticated g = Some False"
    by (cases "isAuthenticated g") (auto simp: render_def)
qed


theorem sessionGuard_outcomes_witness:
  "phase (guardStep Activate initGuard) = AwaitToken \<and>
   isMounted (guardStep Activate initGuard) \<and>
   fetchToken (Fulfilled 200 (Data (Some ''T1''))) = (Some ''T1'', []) \<and>
   \<not> truthy (fst (fetchToken (Failed True))) \<and>
   render (guardStep (TokenSettled (Failed True)) (guardStep Activate initGuard)) = Nothing \<and>
   guardStep (TokenSettled (Fulfilled 200 (Data (Some ''T1'')))) (guardStep Activate initGuard) =
     (guardStep Activate initGuard)
       \<lparr>phase := AwaitCheck,
        actions := actions (guardStep Activate initGuard) @ []
                   @ [Get ''/account/check-auth'' [(''Authorization'', bearer ''T1'')]]\<rparr> \<and>
   phase (guardRun [Activate, TokenSettled (Fulfilled 200 (Data (Some ''T1'')))] initGuard) =
     AwaitCheck \<and>
   isMounted (guardRun [Activate, TokenSettled (Fulfilled 200 (Data (Some ''T1'')))] initGuard) \<and>
   render (guardStep (CheckSettled True)
             (guardRun [Activate, TokenSettled (Fulfilled 200 (Data (Some ''T1'')))] initGuard)) =
     Children \<and>
   render (guardStep (CheckSettled False)
             (guardRun [Activate, TokenSettled (Fulfilled 200 (Data (Some ''T1'')))] initGuard)) =
     Nothing \<and>
   \<not> isMounted (guardRun [Activate, Deactivate] initGuard) \<and>
   phase (guardRun [Activate, Deactivate] initGuard) \<noteq> Inactive \<and>
   render (guardRun [Activate, Deactivate] initGuard) = Loading \<and>
   render (guardRun [TokenSettled (Fulfilled 200 (Data (Some ''T1''))), CheckSettled True]
             (guardRun [Activate, Deactivate] initGuard)) =
     render (guardRun [Activate, Deactivate] initGuard)"
proof -
  let ?ok = "Fulfilled 200 (Data (Some ''T1''))"
  let ?g1 = "guardStep Activate initGuard"
  let ?g2 = "guardRun [Activate, TokenSettled ?ok] initGuard"
  let ?g3 = "guardRun [Activate, Deactivate] initGuard"
  have h1: "phase ?g1 = AwaitToken" "isMounted ?g1"
    by code_simp+
  have h2: "fetchToken ?ok = (Some ''T1'', [])" "\<not> truthy (fst (fetchToken (Failed True)))"
    "''T1'' \<noteq> []"
    by code_simp+
  have h3: "phase ?g2 = AwaitCheck" "isMounted ?g2"
    by code_simp+
  have h4: "\<not> isMounted ?g3" "phase ?g3 \<noteq> Inactive" "render ?g3 = Loading"
    by code_simp+
  from sessionGuard_outcomes[where g = ?g1 and r = "Failed True"] h1 h2
  have a: "render (guardStep (TokenSettled (Failed True)) ?g1) = Nothing"
    by blast
  from sessionGuard_outcomes[where g = ?g1 and r = ?ok and t = "''T1''" and logged = "[]"] h1 h2
  have b: "guardStep (TokenSettled ?ok) ?g1 =
      ?g1\<lparr>phase := AwaitCheck,
         actions := actions ?g1 @ []
                    @ [Get ''/account/check-auth'' [(''Authorization'', bearer ''T1'')]]\<rparr>"
    by blast
  from sessionGuard_outcomes[where g = ?g2] h3
  have c: "render (guardStep (CheckSettled True) ?g2) = Children"
    "render (guardStep (CheckSettled False) ?g2) = Nothing"
    by blast+
  from sessionGuard_outcomes[where g = ?g3 and events = "[TokenSettled ?ok, CheckSettled True]"] h4
  have d: "render (guardRun [TokenSettled ?ok, CheckSettled True] ?g3) = render ?g3"
    by blast
  from h1 h2 h3 h4 a b c d show ?thesis
    by blast
qed

end
